theory Spec2Isabelle
  imports Main
begin

section \<open>Sudoku Killer by constraint programming: the model of main.py\<close>

text \<open>
  The program builds a list of assertions in a Z3 solver object and then enumerates the
  models of that list: it asks the solver for a model, prints it, asserts a clause that
  excludes it, and asks again until the solver answers that nothing is left.

  The solver object is modelled by the list of the formulas asserted so far, in the order
  of the calls of \<open>add\<close>. The Z3 library is not part of the program: its \<open>check\<close> and
  \<open>model\<close> are a parameter \<open>check\<close> of the loop, a function from the asserted formulas
  to a model or to \<open>None\<close> (unsat). What is assumed of it is the predicate
  \<open>solucionador_z3\<close> below. A model gives a value to every constant, so that
  \<open>modelo.eval\<close> of a cell is a number. A Z3 integer constant is identified by the two
  numbers in its name: \<open>celda[i,j]\<close> is the pair \<open>(i, j)\<close>.
\<close>

subsection \<open>Formulas and their meaning\<close>

type_synonym variable = "int \<times> int"

type_synonym modelo = "variable \<Rightarrow> int"

datatype restriccion =
    Ge variable int
  | Le variable int
  | Distinct "variable list"
  | SumEq "variable list" int
  | OrNeq "(variable \<times> int) list"

datatype error = KeyError | ValueError | TypeError | Z3Exception

type_synonym solver = "restriccion list"

type_synonym tablero = "int list list"

fun satisface :: "modelo \<Rightarrow> restriccion \<Rightarrow> bool" where
  "satisface m (Ge v k) = (k \<le> m v)"
| "satisface m (Le v k) = (m v \<le> k)"
| "satisface m (Distinct vs) = distinct (map m vs)"
| "satisface m (SumEq vs t) = (sum_list (map m vs) = t)"
| "satisface m (OrNeq ps) = list_ex (\<lambda>p. m (fst p) \<noteq> snd p) ps"

definition satisface_todas :: "modelo \<Rightarrow> solver \<Rightarrow> bool" where
  "satisface_todas m cs = list_all (satisface m) cs"

fun variables_de :: "restriccion \<Rightarrow> variable list" where
  "variables_de (Ge v k) = [v]"
| "variables_de (Le v k) = [v]"
| "variables_de (Distinct vs) = vs"
| "variables_de (SumEq vs t) = vs"
| "variables_de (OrNeq ps) = map fst ps"

text \<open>
  The solver is created with \<open>SolverFor("QF_FD")\<close>, the logic of finite domains. A list
  of formulas is a finite-domain problem when each constant it mentions has a lower and
  an upper bound among the formulas.
\<close>

definition acotada :: "solver \<Rightarrow> variable \<Rightarrow> bool" where
  "acotada cs v = (list_ex (\<lambda>c. case c of Ge u k \<Rightarrow> u = v | _ \<Rightarrow> False) cs
                 \<and> list_ex (\<lambda>c. case c of Le u k \<Rightarrow> u = v | _ \<Rightarrow> False) cs)"

definition dominio_finito :: "solver \<Rightarrow> bool" where
  "dominio_finito cs = list_all (acotada cs) (concat (map variables_de cs))"

text \<open>
  What is assumed of Z3: on a finite-domain problem, \<open>check\<close> answers sat exactly when
  the formulas have a model, and the model it then gives satisfies them all. Which
  model it gives is left open.
\<close>

definition solucionador_z3 :: "(solver \<Rightarrow> modelo option) \<Rightarrow> bool" where
  "solucionador_z3 check =
     (\<forall>cs. dominio_finito cs \<longrightarrow>
        (case check cs of
           None \<Rightarrow> (\<forall>m. \<not> satisface_todas m cs)
         | Some m \<Rightarrow> satisface_todas m cs))"

subsection \<open>Python's range, dictionary lookup and errors\<close>

definition rango :: "int \<Rightarrow> int list" where
  "rango n = [0..n - 1]"

text \<open>\<open>range(0, n, s)\<close> for a positive step; a zero step raises ValueError.\<close>

definition rango_paso :: "int \<Rightarrow> int \<Rightarrow> error + int list" where
  "rango_paso n s =
     (if s = 0 then Inl ValueError else Inr (map (\<lambda>k. k * s) [0..(n - 1) div s]))"

definition ligar :: "error + 'a \<Rightarrow> ('a \<Rightarrow> error + 'b) \<Rightarrow> error + 'b" where
  "ligar x f = (case x of Inl e \<Rightarrow> Inl e | Inr y \<Rightarrow> f y)"

fun por_cada :: "('a \<Rightarrow> 's \<Rightarrow> error + 's) \<Rightarrow> 'a list \<Rightarrow> 's \<Rightarrow> error + 's" where
  "por_cada f [] s = Inr s"
| "por_cada f (x # xs) s = ligar (f x s) (por_cada f xs)"

type_synonym dicc = "int \<times> int \<rightharpoonup> variable"

definition buscar :: "dicc \<Rightarrow> int \<times> int \<Rightarrow> error + variable" where
  "buscar vt k = (case vt k of None \<Rightarrow> Inl KeyError | Some v \<Rightarrow> Inr v)"

fun buscar_todas :: "dicc \<Rightarrow> (int \<times> int) list \<Rightarrow> error + variable list" where
  "buscar_todas vt [] = Inr []"
| "buscar_todas vt (k # ks) =
     ligar (buscar vt k) (\<lambda>v. ligar (buscar_todas vt ks) (\<lambda>vs. Inr (v # vs)))"

text \<open>
  \<open>int(n ** 0.5)\<close>: a negative \<open>n\<close> gives a complex number, which \<open>int\<close> refuses with
  TypeError; otherwise the result is the integer square root (the number of
  \<open>k\<close> in \<open>1..n\<close> with \<open>k * k \<le> n\<close>), as long as \<open>n\<close> is small enough for the
  floating-point root to be exact to the unit.
\<close>

definition raiz_entera :: "int \<Rightarrow> error + int" where
  "raiz_entera n =
     (if n < 0 then Inl TypeError
      else Inr (int (length (filter (\<lambda>k. k * k \<le> n) [1..n]))))"

text \<open>z3py's \<open>Distinct\<close> refuses an empty argument list.\<close>

definition z3_Distinct :: "variable list \<Rightarrow> error + restriccion" where
  "z3_Distinct vs = (if vs = [] then Inl Z3Exception else Inr (Distinct vs))"

subsection \<open>The functions of main.py\<close>

definition crear_variable_entera ::
  "solver \<Rightarrow> variable \<Rightarrow> int \<Rightarrow> int \<Rightarrow> solver \<times> variable" where
  "crear_variable_entera s nombre valor_minimo valor_maximo =
     (s @ [Ge nombre valor_minimo, Le nombre valor_maximo], nombre)"

definition agregar_restriccion_jaula ::
  "solver \<Rightarrow> variable list \<Rightarrow> int \<Rightarrow> error + solver" where
  "agregar_restriccion_jaula s celdas_grupo suma_objetivo =
     ligar (z3_Distinct celdas_grupo)
       (\<lambda>d. Inr (s @ [SumEq celdas_grupo suma_objetivo, d]))"

text \<open>Lines 70 to 77: one variable for each cell, stored under its 0-based key.\<close>

definition crear_celda :: "int \<Rightarrow> int \<times> int \<Rightarrow> dicc \<times> solver \<Rightarrow> dicc \<times> solver" where
  "crear_celda n k st =
     (case crear_variable_entera (snd st) (fst k + 1, snd k + 1) 1 n of
        (s', v) \<Rightarrow> ((fst st)(k \<mapsto> v), s'))"

definition crear_celdas :: "int \<Rightarrow> dicc \<times> solver" where
  "crear_celdas n =
     fold (crear_celda n) (List.product (rango n) (rango n)) (Map.empty, [])"

definition agregar_distinct :: "dicc \<Rightarrow> (int \<times> int) list \<Rightarrow> solver \<Rightarrow> error + solver" where
  "agregar_distinct vt ks s =
     ligar (buscar_todas vt ks) (\<lambda>vs. ligar (z3_Distinct vs) (\<lambda>d. Inr (s @ [d])))"

text \<open>Lines 80 to 82: the rows and the columns.\<close>

definition filas_columnas :: "dicc \<Rightarrow> int \<Rightarrow> solver \<Rightarrow> error + solver" where
  "filas_columnas vt n =
     por_cada (\<lambda>fila s.
         ligar (agregar_distinct vt (map (\<lambda>columna. (fila, columna)) (rango n)) s)
           (agregar_distinct vt (map (\<lambda>columna. (columna, fila)) (rango n))))
       (rango n)"

text \<open>Lines 85 to 92: the sub-blocks.\<close>

definition celdas_bloque :: "int \<Rightarrow> int \<Rightarrow> int \<Rightarrow> (int \<times> int) list" where
  "celdas_bloque sub fila_inicio columna_inicio =
     map (\<lambda>rc. (fila_inicio + fst rc, columna_inicio + snd rc))
       (List.product (rango sub) (rango sub))"

definition subcuadriculas :: "dicc \<Rightarrow> int \<Rightarrow> int \<Rightarrow> solver \<Rightarrow> error + solver" where
  "subcuadriculas vt n sub s =
     ligar (rango_paso n sub) (\<lambda>inicios.
       por_cada (\<lambda>fila_inicio.
           por_cada (\<lambda>columna_inicio.
               agregar_distinct vt (celdas_bloque sub fila_inicio columna_inicio))
             inicios)
         inicios s)"

text \<open>Lines 95 to 97: the cages, with 1-based coordinates.\<close>

type_synonym jaula = "int \<times> (int \<times> int) list"

definition agregar_jaula :: "dicc \<Rightarrow> jaula \<Rightarrow> solver \<Rightarrow> error + solver" where
  "agregar_jaula vt j s =
     ligar (buscar_todas vt (map (\<lambda>fc. (fst fc - 1, snd fc - 1)) (snd j)))
       (\<lambda>celdas. agregar_restriccion_jaula s celdas (fst j))"

definition construir :: "jaula list \<Rightarrow> int \<Rightarrow> error + dicc \<times> solver" where
  "construir restricciones n =
     (case crear_celdas n of
        (vt, s0) \<Rightarrow>
          ligar (filas_columnas vt n s0) (\<lambda>s1.
          ligar (raiz_entera n) (\<lambda>sub.
          ligar (subcuadriculas vt n sub s1) (\<lambda>s2.
          ligar (por_cada (agregar_jaula vt) restricciones s2) (\<lambda>s3.
          Inr (vt, s3))))))"

subsection \<open>The enumeration loop\<close>

record estado =
  restr :: solver
  encontradas :: nat
  salida :: "tablero list"

text \<open>Lines 108 and 109: the rows that are printed for a model.\<close>

definition evaluar_tablero :: "dicc \<Rightarrow> int \<Rightarrow> modelo \<Rightarrow> error + tablero" where
  "evaluar_tablero vt n m =
     por_cada (\<lambda>fila filas.
         ligar (buscar_todas vt (map (\<lambda>columna. (fila, columna)) (rango n)))
           (\<lambda>vs. Inr (filas @ [map m vs])))
       (rango n) []"

text \<open>Lines 113 to 117: the clause that excludes the model just found.\<close>

definition bloqueo :: "dicc \<Rightarrow> int \<Rightarrow> modelo \<Rightarrow> error + restriccion" where
  "bloqueo vt n m =
     ligar (buscar_todas vt (List.product (rango n) (rango n)))
       (\<lambda>vs. Inr (OrNeq (map (\<lambda>v. (v, m v)) vs)))"

text \<open>Lines 103 to 117: the body of the loop, for the model \<open>m\<close> that Z3 gave.\<close>

definition paso :: "dicc \<Rightarrow> int \<Rightarrow> modelo \<Rightarrow> estado \<Rightarrow> error + estado" where
  "paso vt n m st =
     ligar (evaluar_tablero vt n m) (\<lambda>t.
     ligar (bloqueo vt n m) (\<lambda>b.
     Inr \<lparr>restr = restr st @ [b],
          encontradas = encontradas st + 1,
          salida = salida st @ [t]\<rparr>))"

text \<open>The loop of line 102. \<open>None\<close> is a loop that never ends.\<close>

partial_function (option) bucle ::
  "(solver \<Rightarrow> modelo option) \<Rightarrow> dicc \<Rightarrow> int \<Rightarrow> estado \<Rightarrow> (error + estado) option" where
  "bucle check vt n st =
     (case check (restr st) of
        None \<Rightarrow> Some (Inr st)
      | Some m \<Rightarrow>
          (case paso vt n m st of
             Inl e \<Rightarrow> Some (Inl e)
           | Inr st' \<Rightarrow> bucle check vt n st'))"

text \<open>Concrete runs are computed with the equation of the loop.\<close>

declare bucle.simps [code]

text \<open>
  The whole function: the construction, then the loop. The result is \<open>None\<close> when the
  loop does not end, the error raised, or the final state: the assertions of the solver,
  the number of solutions counted and the boards printed, in order.
\<close>

definition resolver_sudoku_killer ::
  "(solver \<Rightarrow> modelo option) \<Rightarrow> jaula list \<Rightarrow> int \<Rightarrow> (error + estado) option" where
  "resolver_sudoku_killer check restricciones dimension_tablero =
     (case construir restricciones dimension_tablero of
        Inl e \<Rightarrow> Some (Inl e)
      | Inr (vt, s) \<Rightarrow>
          bucle check vt dimension_tablero
            \<lparr>restr = s, encontradas = 0, salida = []\<rparr>)"

subsection \<open>What the construction builds\<close>

text \<open>
  The names below describe the result of the construction in closed form: the dictionary
  \<open>variables_tablero\<close> after line 77, and the assertions of each group in the
  order of the calls of \<open>add\<close>. That the functions above compute exactly these is
  proved further down (\<open>construir_eq\<close>, \<open>construir_ok\<close>).
\<close>

definition nombre :: "int \<times> int \<Rightarrow> variable" where
  "nombre k = (fst k + 1, snd k + 1)"

definition celdas :: "int \<Rightarrow> (int \<times> int) list" where
  "celdas n = List.product (rango n) (rango n)"

definition cotas :: "int \<Rightarrow> solver" where
  "cotas n = concat (map (\<lambda>k. [Ge (nombre k) 1, Le (nombre k) n]) (celdas n))"

definition dicc_tablero :: "int \<Rightarrow> dicc" where
  "dicc_tablero n = (\<lambda>k. if k \<in> set (celdas n) then Some (nombre k) else None)"

definition filas :: "int \<Rightarrow> solver" where
  "filas n = concat (map (\<lambda>fila.
       [Distinct (map (\<lambda>columna. nombre (fila, columna)) (rango n)),
        Distinct (map (\<lambda>columna. nombre (columna, fila)) (rango n))]) (rango n))"

definition raiz :: "int \<Rightarrow> int" where
  "raiz n = int (length (filter (\<lambda>k. k * k \<le> n) [1..n]))"

definition inicios :: "int \<Rightarrow> int \<Rightarrow> int list" where
  "inicios n sub = map (\<lambda>k. k * sub) [0..(n - 1) div sub]"

definition bloques :: "int \<Rightarrow> int \<Rightarrow> solver" where
  "bloques n sub = concat (map (\<lambda>fila_inicio.
       concat (map (\<lambda>columna_inicio.
          [Distinct (map nombre (celdas_bloque sub fila_inicio columna_inicio))])
        (inicios n sub))) (inicios n sub))"

definition en_tablero :: "int \<Rightarrow> jaula \<Rightarrow> bool" where
  "en_tablero n j =
     list_all (\<lambda>fc. 1 \<le> fst fc \<and> fst fc \<le> n \<and> 1 \<le> snd fc \<and> snd fc \<le> n) (snd j)"

definition jaulas :: "jaula list \<Rightarrow> solver" where
  "jaulas restricciones =
     concat (map (\<lambda>j. [SumEq (snd j) (fst j), Distinct (snd j)]) restricciones)"

definition jaulas_validas :: "int \<Rightarrow> jaula list \<Rightarrow> bool" where
  "jaulas_validas n restricciones = list_all (\<lambda>j. en_tablero n j \<and> snd j \<noteq> []) restricciones"

definition base :: "int \<Rightarrow> solver" where
  "base n = cotas n @ filas n @ bloques n (raiz n)"

definition instancia_valida :: "int \<Rightarrow> jaula list \<Rightarrow> bool" where
  "instancia_valida n restricciones =
     (1 \<le> n \<and> raiz n dvd n \<and> jaulas_validas n restricciones)"

definition cuadricula :: "int \<Rightarrow> modelo \<Rightarrow> tablero" where
  "cuadricula n m =
     map (\<lambda>fila. map (\<lambda>columna. m (nombre (fila, columna))) (rango n)) (rango n)"

definition clausula :: "int \<Rightarrow> modelo \<Rightarrow> restriccion" where
  "clausula n m = OrNeq (map (\<lambda>v. (v, m v)) (map nombre (celdas n)))"

definition soluciones :: "int \<Rightarrow> solver \<Rightarrow> tablero set" where
  "soluciones n cs = cuadricula n ` {m. satisface_todas m cs}"

definition sobre_tablero :: "int \<Rightarrow> solver \<Rightarrow> bool" where
  "sobre_tablero n cs =
     (set (cotas n) \<subseteq> set cs \<and>
      (\<forall>c \<in> set cs. set (variables_de c) \<subseteq> nombre ` set (celdas n)))"

subsection \<open>A reference solver\<close>

text \<open>
  An exhaustive search over the bounds that the formulas give to their constants. It
  satisfies \<open>solucionador_z3\<close> (\<open>fuerza_bruta_z3\<close>), so the assumption made of Z3 can
  be met, and it runs: the examples below are computed with it.
\<close>

definition cotas_inferiores :: "solver \<Rightarrow> variable \<Rightarrow> int list" where
  "cotas_inferiores cs v =
     concat (map (\<lambda>c. case c of Ge u k \<Rightarrow> (if u = v then [k] else []) | _ \<Rightarrow> []) cs)"

definition cotas_superiores :: "solver \<Rightarrow> variable \<Rightarrow> int list" where
  "cotas_superiores cs v =
     concat (map (\<lambda>c. case c of Le u k \<Rightarrow> (if u = v then [k] else []) | _ \<Rightarrow> []) cs)"

definition dominio :: "solver \<Rightarrow> variable \<Rightarrow> int list" where
  "dominio cs v =
     (case cotas_inferiores cs v of
        [] \<Rightarrow> []
      | lo # _ \<Rightarrow> (case cotas_superiores cs v of [] \<Rightarrow> [] | hi # _ \<Rightarrow> [lo..hi]))"

fun asignaciones :: "(variable \<times> int list) list \<Rightarrow> (variable \<times> int) list list" where
  "asignaciones [] = [[]]"
| "asignaciones (vd # resto) =
     concat (map (\<lambda>k. map (\<lambda>a. (fst vd, k) # a) (asignaciones resto)) (snd vd))"

definition modelo_de :: "(variable \<times> int) list \<Rightarrow> modelo" where
  "modelo_de a v = (case map_of a v of Some k \<Rightarrow> k | None \<Rightarrow> 0)"

definition fuerza_bruta :: "solver \<Rightarrow> modelo option" where
  "fuerza_bruta cs =
     map_option modelo_de
       (find (\<lambda>a. satisface_todas (modelo_de a) cs)
          (asignaciones (map (\<lambda>v. (v, dominio cs v)) (remdups (concat (map variables_de cs))))))"

subsection \<open>Reading a printed board\<close>

text \<open>
  A printed board is the list of its rows. \<open>completa n xs\<close>: the list \<open>xs\<close> holds each
  value of \<open>1..n\<close> exactly once. \<open>valor\<close> reads a cell by the 1-based coordinates of
  the cages.
\<close>

definition completa :: "int \<Rightarrow> int list \<Rightarrow> bool" where
  "completa n xs = (distinct xs \<and> set xs = set [1..n])"

definition fila_de :: "tablero \<Rightarrow> int \<Rightarrow> int list" where
  "fila_de t fila = t ! nat fila"

definition columna_de :: "tablero \<Rightarrow> int \<Rightarrow> int list" where
  "columna_de t columna = map (\<lambda>fila. fila ! nat columna) t"

definition valor :: "tablero \<Rightarrow> int \<times> int \<Rightarrow> int" where
  "valor t fc = t ! nat (fst fc - 1) ! nat (snd fc - 1)"

definition bloque_de :: "tablero \<Rightarrow> int \<Rightarrow> int \<Rightarrow> int \<Rightarrow> int list" where
  "bloque_de t sub fila_inicio columna_inicio =
     map (\<lambda>rc. t ! nat (fila_inicio + fst rc) ! nat (columna_inicio + snd rc))
       (List.product (rango sub) (rango sub))"

text \<open>The list without its element at position \<open>i\<close>.\<close>

definition quitar :: "nat \<Rightarrow> 'a list \<Rightarrow> 'a list" where
  "quitar i xs = take i xs @ drop (Suc i) xs"

subsection \<open>The instance of main.py\<close>

definition restricciones_sudoku :: "jaula list" where
  "restricciones_sudoku =
    [(8, [(1, 1), (2, 1)]),
     (24, [(1, 2), (1, 3), (2, 3)]),
     (9, [(1, 4), (2, 4)]),
     (14, [(1, 5), (1, 6), (1, 7)]),
     (15, [(1, 8), (1, 9), (2, 8), (2, 9)]),
     (6, [(2, 2), (3, 2)]),
     (15, [(2, 5), (2, 6), (2, 7)]),
     (11, [(3, 1), (4, 1), (4, 2)]),
     (16, [(3, 3), (3, 4), (3, 5)]),
     (19, [(3, 6), (3, 7), (3, 8), (4, 6)]),
     (17, [(3, 9), (4, 9)]),
     (23, [(4, 3), (5, 2), (5, 3), (6, 2), (6, 3)]),
     (8, [(4, 4), (5, 4)]),
     (8, [(4, 5), (5, 5)]),
     (19, [(4, 7), (4, 8), (5, 8)]),
     (15, [(5, 1), (6, 1)]),
     (7, [(5, 6), (5, 7)]),
     (7, [(5, 9), (6, 9)]),
     (17, [(6, 4), (6, 5)]),
     (8, [(6, 6), (6, 7)]),
     (14, [(6, 8), (7, 8), (7, 9)]),
     (16, [(7, 1), (8, 1), (8, 2)]),
     (17, [(7, 2), (7, 3), (7, 4)]),
     (10, [(7, 5), (7, 6)]),
     (21, [(7, 7), (8, 7), (8, 8), (8, 9)]),
     (8, [(8, 3), (8, 4), (8, 5)]),
     (22, [(8, 6), (9, 4), (9, 5), (9, 6)]),
     (17, [(9, 1), (9, 2), (9, 3)]),
     (14, [(9, 7), (9, 8), (9, 9)])]"

definition dimension :: int where
  "dimension = 9"

subsection \<open>A checker for the solution set of an instance\<close>

text \<open>
  How many boards satisfy the assertions of a 9 x 9 instance cannot be found by trying
  all assignments. It is settled by a checked search instead. The search works on the
  cells by their 0-based coordinates and keeps, for each cell, the list of the values
  still possible (\<open>dominios\<close>). A certificate (\<open>cert\<close>) tells the checker which
  step to take next: remove the value of a decided cell from the other cells of a
  Distinct (\<open>ElimD\<close>), restrict a cell to the values that a sum leaves possible given
  the smallest and largest values of the other cells (\<open>AcotaS\<close>), decide a cell that is
  the only one of a row, column or block to admit a value (\<open>Oculto\<close>), split on the
  values of a cell (\<open>Rama\<close>), close a branch in which a cell has no value left
  (\<open>Vacio\<close>), or stop (\<open>Hecho\<close>). The checker trusts nothing in the certificate: a
  step that does not apply makes it fail, and every step is proved below to keep all
  models of the assertions (\<open>verifica_ok\<close>).

  Besides the assertions of the program, the steps may use sums that follow from them
  (\<open>derivacion\<close>): a row, column or block of \<open>n\<close> cells holds each value once, so its
  cells add up to \<open>1 + ... + n\<close>; the cells of some units without the cages inside them
  (\<open>Dentro\<close>), or the cells of the cages that touch some units without those units
  (\<open>Fuera\<close>), then have a known sum.
\<close>

type_synonym celda = "nat \<times> nat"

datatype ic = Dist "celda list" | Suma "celda list" int

type_synonym dominios = "int list list list"

definition var :: "celda \<Rightarrow> variable" where
  "var p = (int (fst p) + 1, int (snd p) + 1)"

fun traduce :: "ic \<Rightarrow> restriccion" where
  "traduce (Dist ps) = Distinct (map var ps)"
| "traduce (Suma ps t) = SumEq (map var ps) t"

fun celdas_ic :: "ic \<Rightarrow> celda list" where
  "celdas_ic (Dist ps) = ps"
| "celdas_ic (Suma ps t) = ps"

definition en_rango :: "nat \<Rightarrow> celda \<Rightarrow> bool" where
  "en_rango n p = (fst p < n \<and> snd p < n)"

definition validas :: "nat \<Rightarrow> ic list \<Rightarrow> bool" where
  "validas n ics = list_all (\<lambda>ic. list_all (en_rango n) (celdas_ic ic)) ics"

definition suma_unidad :: "nat \<Rightarrow> int" where
  "suma_unidad n = int n * (int n + 1) div 2"

fun busca :: "'a list \<Rightarrow> nat \<Rightarrow> 'a option" where
  "busca [] i = None"
| "busca (x # xs) 0 = Some x"
| "busca (x # xs) (Suc i) = busca xs i"

fun quita_todas :: "celda list \<Rightarrow> celda list \<Rightarrow> celda list option" where
  "quita_todas [] ys = Some ys"
| "quita_todas (x # xs) ys = (if x \<in> set ys then quita_todas xs (remove1 x ys) else None)"

fun unidades :: "nat \<Rightarrow> ic list \<Rightarrow> nat list \<Rightarrow> celda list option" where
  "unidades n ics [] = Some []"
| "unidades n ics (i # is) =
     (case busca ics i of
        Some (Dist ps) \<Rightarrow>
          (if length ps = n then map_option (\<lambda>r. ps @ r) (unidades n ics is) else None)
      | _ \<Rightarrow> None)"

fun sumas :: "ic list \<Rightarrow> nat list \<Rightarrow> (celda list \<times> int) option" where
  "sumas ics [] = Some ([], 0)"
| "sumas ics (i # is) =
     (case busca ics i of
        Some (Suma ps t) \<Rightarrow> map_option (\<lambda>r. (ps @ fst r, t + snd r)) (sumas ics is)
      | _ \<Rightarrow> None)"

datatype derivacion = Copia nat | Dentro "nat list" "nat list" | Fuera "nat list" "nat list"

fun deriva :: "nat \<Rightarrow> ic list \<Rightarrow> derivacion \<Rightarrow> ic option" where
  "deriva n ics (Copia i) = busca ics i"
| "deriva n ics (Dentro us cs) =
     (case unidades n ics us of
        None \<Rightarrow> None
      | Some U \<Rightarrow>
          (case sumas ics cs of
             None \<Rightarrow> None
           | Some C \<Rightarrow>
               map_option (\<lambda>r. Suma r (int (length us) * suma_unidad n - snd C))
                 (quita_todas (fst C) U)))"
| "deriva n ics (Fuera us cs) =
     (case unidades n ics us of
        None \<Rightarrow> None
      | Some U \<Rightarrow>
          (case sumas ics cs of
             None \<Rightarrow> None
           | Some C \<Rightarrow>
               map_option (\<lambda>r. Suma r (snd C - int (length us) * suma_unidad n))
                 (quita_todas U (fst C))))"

fun derivadas :: "nat \<Rightarrow> ic list \<Rightarrow> derivacion list \<Rightarrow> ic list option" where
  "derivadas n ics [] = Some []"
| "derivadas n ics (d # ds) =
     (case deriva n ics d of
        None \<Rightarrow> None
      | Some c \<Rightarrow> map_option ((#) c) (derivadas n ics ds))"

definition dom_celda :: "dominios \<Rightarrow> celda \<Rightarrow> int list" where
  "dom_celda D p = D ! fst p ! snd p"

definition pon :: "celda \<Rightarrow> int list \<Rightarrow> dominios \<Rightarrow> dominios" where
  "pon p d D = D[fst p := (D ! fst p)[snd p := d]]"

definition bien_formado :: "nat \<Rightarrow> dominios \<Rightarrow> bool" where
  "bien_formado n D = (length D = n \<and> list_all (\<lambda>fila. length fila = n) D)"

definition compatible :: "nat \<Rightarrow> modelo \<Rightarrow> dominios \<Rightarrow> bool" where
  "compatible n m D = (\<forall>p. en_rango n p \<longrightarrow> m (var p) \<in> set (dom_celda D p))"

datatype paso = ElimD nat celda | AcotaS nat celda | Oculto nat int celda

datatype cert = Pasos "paso list" cert | Rama celda "cert list" | Vacio celda | Hecho

fun elimina :: "int \<Rightarrow> celda \<Rightarrow> celda list \<Rightarrow> dominios \<Rightarrow> dominios" where
  "elimina k u [] D = D"
| "elimina k u (v # vs) D =
     elimina k u vs (if v = u then D else pon v (removeAll k (dom_celda D v)) D)"

definition minimo :: "int list \<Rightarrow> int" where
  "minimo d = fold min d (hd d)"

definition maximo :: "int list \<Rightarrow> int" where
  "maximo d = fold max d (hd d)"

fun aplica :: "nat \<Rightarrow> ic list \<Rightarrow> paso \<Rightarrow> dominios \<Rightarrow> dominios option" where
  "aplica n ics (ElimD c u) D =
     (case busca ics c of
        Some (Dist ps) \<Rightarrow>
          (if u \<in> set ps
           then (case dom_celda D u of [k] \<Rightarrow> Some (elimina k u ps D) | _ \<Rightarrow> None)
           else None)
      | _ \<Rightarrow> None)"
| "aplica n ics (AcotaS c v) D =
     (case busca ics c of
        Some (Suma ps t) \<Rightarrow>
          (if v \<in> set ps
           then (let otras = remove1 v ps;
                     lo = t - sum_list (map (\<lambda>u. maximo (dom_celda D u)) otras);
                     hi = t - sum_list (map (\<lambda>u. minimo (dom_celda D u)) otras)
                 in Some (pon v (filter (\<lambda>k. lo \<le> k \<and> k \<le> hi) (dom_celda D v)) D))
           else None)
      | _ \<Rightarrow> None)"
| "aplica n ics (Oculto c k v) D =
     (case busca ics c of
        Some (Dist ps) \<Rightarrow>
          (if length ps = n \<and> 1 \<le> k \<and> k \<le> int n \<and> v \<in> set ps
              \<and> list_all (\<lambda>u. u = v \<or> k \<notin> set (dom_celda D u)) ps
           then Some (pon v (filter (\<lambda>x. x = k) (dom_celda D v)) D)
           else None)
      | _ \<Rightarrow> None)"

fun aplica_todos :: "nat \<Rightarrow> ic list \<Rightarrow> paso list \<Rightarrow> dominios \<Rightarrow> dominios option" where
  "aplica_todos n ics [] D = Some D"
| "aplica_todos n ics (st # sts) D =
     (case aplica n ics st D of None \<Rightarrow> None | Some D' \<Rightarrow> aplica_todos n ics sts D')"

fun verifica :: "nat \<Rightarrow> ic list \<Rightarrow> cert \<Rightarrow> dominios \<Rightarrow> dominios list option"
  and verifica_ramas ::
    "nat \<Rightarrow> ic list \<Rightarrow> celda \<Rightarrow> int list \<Rightarrow> cert list \<Rightarrow> dominios \<Rightarrow> dominios list option"
where
  "verifica n ics (Pasos sts c) D =
     (case aplica_todos n ics sts D of None \<Rightarrow> None | Some D' \<Rightarrow> verifica n ics c D')"
| "verifica n ics (Rama v cs) D =
     (if en_rango n v then verifica_ramas n ics v (dom_celda D v) cs D else None)"
| "verifica n ics (Vacio v) D =
     (if en_rango n v \<and> dom_celda D v = [] then Some [] else None)"
| "verifica n ics Hecho D = Some [D]"
| "verifica_ramas n ics v [] [] D = Some []"
| "verifica_ramas n ics v (k # ks) (c # cs) D =
     (case verifica n ics c (pon v [k] D) of
        None \<Rightarrow> None
      | Some r \<Rightarrow>
          (case verifica_ramas n ics v ks cs D of None \<Rightarrow> None | Some rs \<Rightarrow> Some (r @ rs)))"
| "verifica_ramas n ics v [] (c # cs) D = None"
| "verifica_ramas n ics v (k # ks) [] D = None"

definition modelo_ok :: "nat \<Rightarrow> ic list \<Rightarrow> modelo \<Rightarrow> bool" where
  "modelo_ok n ics m =
     ((\<forall>p. en_rango n p \<longrightarrow> 1 \<le> m (var p) \<and> m (var p) \<le> int n)
      \<and> (\<forall>c \<in> set ics. satisface m (traduce c))
      \<and> validas n ics)"

text \<open>The assertions of an instance, by cells instead of Z3 constants.\<close>

definition celda_de :: "variable \<Rightarrow> celda" where
  "celda_de v = (nat (fst v - 1), nat (snd v - 1))"

fun indexa :: "restriccion \<Rightarrow> ic option" where
  "indexa (Distinct vs) = Some (Dist (map celda_de vs))"
| "indexa (SumEq vs t) = Some (Suma (map celda_de vs) t)"
| "indexa (Ge v k) = None"
| "indexa (Le v k) = None"
| "indexa (OrNeq ps) = None"

definition indices :: "int \<Rightarrow> jaula list \<Rightarrow> ic list" where
  "indices n restricciones =
     List.map_filter indexa (filas n @ bloques n (raiz n) @ jaulas restricciones)"

definition inicial :: "nat \<Rightarrow> dominios" where
  "inicial n = replicate n (replicate n [1..int n])"

definition resuelto :: "tablero \<Rightarrow> dominios" where
  "resuelto t = map (map (\<lambda>k. [k])) t"

subsection \<open>The solution of the instance of main.py and its certificate\<close>

text \<open>
  The board below, the sums derived for the instance and the certificate of the search
  were found outside the proof; the checker validates them (\<open>sudoku_derivadas\<close>,
  \<open>sudoku_certificado\<close>, \<open>sudoku_solucion\<close>).
\<close>

definition solucion_sudoku :: tablero where
  "solucion_sudoku =
    [[2, 9, 8, 1, 4, 3, 7, 6, 5],
     [6, 5, 7, 8, 2, 9, 4, 1, 3],
     [4, 1, 3, 7, 6, 5, 8, 2, 9],
     [1, 6, 2, 5, 7, 4, 9, 3, 8],
     [8, 4, 9, 3, 1, 2, 5, 7, 6],
     [7, 3, 5, 9, 8, 6, 2, 4, 1],
     [5, 7, 4, 6, 9, 1, 3, 8, 2],
     [9, 2, 1, 4, 3, 8, 6, 5, 7],
     [3, 8, 6, 2, 5, 7, 1, 9, 4]]"

definition derivaciones_sudoku :: "derivacion list" where
  "derivaciones_sudoku =
    [Copia 0, Copia 1, Copia 2, Copia 3, Copia 4, Copia 5, Copia 6, Copia 7, Copia 8, Copia 9,
     Copia 10, Copia 11, Copia 12, Copia 13, Copia 14, Copia 15, Copia 16, Copia 17, Copia 18,
     Copia 19, Copia 20, Copia 21, Copia 22, Copia 23, Copia 24, Copia 25, Copia 26, Copia 27,
     Copia 29, Copia 31, Copia 35, Copia 39, Copia 41, Copia 45, Copia 47, Copia 51, Copia 53,
     Copia 55, Copia 57, Copia 59, Copia 61, Copia 63, Copia 65, Copia 67, Copia 68, Copia 69,
     Copia 71, Copia 73, Copia 75, Copia 77, Copia 79, Copia 81, Copia 83, Dentro [0] [33],
     Fuera [0] [27, 29, 31, 33, 35], Dentro [0, 2] [27, 29, 31, 33, 35, 39],
     Fuera [0, 2] [27, 29, 31, 33, 35, 37, 39],
     Dentro [10, 12, 14, 16] [63, 65, 67, 69, 71, 73, 75, 77, 79, 81, 83],
     Dentro [26] [75, 83], Fuera [26] [67, 75, 83], Fuera [14, 16] [69, 75, 77, 79, 81, 83],
     Fuera [16] [79, 81, 83], Dentro [2] [39],
     Fuera [4, 6, 8] [37, 41, 43, 45, 47, 49, 51, 53, 55, 57, 59, 61],
     Fuera [0, 2, 14, 16] [27, 29, 31, 33, 35, 37, 39, 69, 75, 77, 79, 81, 83],
     Dentro [1] [27, 57], Fuera [1] [27, 41, 57, 69, 81], Dentro [1, 3] [27, 37, 41, 57, 69],
     Dentro [1, 3, 5] [27, 29, 37, 41, 49, 57, 69, 81],
     Dentro [1, 3, 5, 7] [27, 29, 31, 37, 41, 49, 51, 57, 69, 71, 81],
     Fuera [1, 3, 5, 7] [27, 29, 31, 37, 41, 43, 49, 51, 57, 63, 69, 71, 77, 79, 81],
     Dentro [11, 13, 15, 17] [35, 45, 47, 55, 59, 61, 65, 67, 75, 83],
     Dentro [13, 15, 17] [35, 47, 55, 61, 67, 75, 83],
     Fuera [13, 15, 17] [33, 35, 39, 45, 47, 55, 59, 61, 65, 67, 75, 83],
     Dentro [15, 17] [35, 47, 61, 67], Fuera [15, 17] [35, 45, 47, 55, 61, 67, 75, 83],
     Dentro [17] [47, 61], Dentro [5] [], Fuera [20] [33, 35, 39, 45, 47],
     Dentro [21] [49, 57], Fuera [21] [41, 49, 57], Dentro [22] [51, 53, 63],
     Fuera [22] [45, 51, 53, 59, 63, 65], Dentro [23] [55, 61],
     Dentro [18, 19] [27, 29, 31, 37, 43], Fuera [18, 19] [27, 29, 31, 33, 37, 39, 41, 43, 45],
     Fuera [19, 20] [31, 33, 35, 39, 43, 45, 47], Dentro [18, 21] [27, 29, 37, 41, 49, 57],
     Fuera [18, 21] [27, 29, 37, 41, 43, 49, 57],
     Fuera [23, 26] [47, 55, 59, 61, 65, 67, 75, 83]]"

definition ics_sudoku :: "ic list" where
  "ics_sudoku =
    [Dist [(0, 0), (0, 1), (0, 2), (0, 3), (0, 4), (0, 5), (0, 6), (0, 7), (0, 8)],
     Dist [(0, 0), (1, 0), (2, 0), (3, 0), (4, 0), (5, 0), (6, 0), (7, 0), (8, 0)],
     Dist [(1, 0), (1, 1), (1, 2), (1, 3), (1, 4), (1, 5), (1, 6), (1, 7), (1, 8)],
     Dist [(0, 1), (1, 1), (2, 1), (3, 1), (4, 1), (5, 1), (6, 1), (7, 1), (8, 1)],
     Dist [(2, 0), (2, 1), (2, 2), (2, 3), (2, 4), (2, 5), (2, 6), (2, 7), (2, 8)],
     Dist [(0, 2), (1, 2), (2, 2), (3, 2), (4, 2), (5, 2), (6, 2), (7, 2), (8, 2)],
     Dist [(3, 0), (3, 1), (3, 2), (3, 3), (3, 4), (3, 5), (3, 6), (3, 7), (3, 8)],
     Dist [(0, 3), (1, 3), (2, 3), (3, 3), (4, 3), (5, 3), (6, 3), (7, 3), (8, 3)],
     Dist [(4, 0), (4, 1), (4, 2), (4, 3), (4, 4), (4, 5), (4, 6), (4, 7), (4, 8)],
     Dist [(0, 4), (1, 4), (2, 4), (3, 4), (4, 4), (5, 4), (6, 4), (7, 4), (8, 4)],
     Dist [(5, 0), (5, 1), (5, 2), (5, 3), (5, 4), (5, 5), (5, 6), (5, 7), (5, 8)],
     Dist [(0, 5), (1, 5), (2, 5), (3, 5), (4, 5), (5, 5), (6, 5), (7, 5), (8, 5)],
     Dist [(6, 0), (6, 1), (6, 2), (6, 3), (6, 4), (6, 5), (6, 6), (6, 7), (6, 8)],
     Dist [(0, 6), (1, 6), (2, 6), (3, 6), (4, 6), (5, 6), (6, 6), (7, 6), (8, 6)],
     Dist [(7, 0), (7, 1), (7, 2), (7, 3), (7, 4), (7, 5), (7, 6), (7, 7), (7, 8)],
     Dist [(0, 7), (1, 7), (2, 7), (3, 7), (4, 7), (5, 7), (6, 7), (7, 7), (8, 7)],
     Dist [(8, 0), (8, 1), (8, 2), (8, 3), (8, 4), (8, 5), (8, 6), (8, 7), (8, 8)],
     Dist [(0, 8), (1, 8), (2, 8), (3, 8), (4, 8), (5, 8), (6, 8), (7, 8), (8, 8)],
     Dist [(0, 0), (0, 1), (0, 2), (1, 0), (1, 1), (1, 2), (2, 0), (2, 1), (2, 2)],
     Dist [(0, 3), (0, 4), (0, 5), (1, 3), (1, 4), (1, 5), (2, 3), (2, 4), (2, 5)],
     Dist [(0, 6), (0, 7), (0, 8), (1, 6), (1, 7), (1, 8), (2, 6), (2, 7), (2, 8)],
     Dist [(3, 0), (3, 1), (3, 2), (4, 0), (4, 1), (4, 2), (5, 0), (5, 1), (5, 2)],
     Dist [(3, 3), (3, 4), (3, 5), (4, 3), (4, 4), (4, 5), (5, 3), (5, 4), (5, 5)],
     Dist [(3, 6), (3, 7), (3, 8), (4, 6), (4, 7), (4, 8), (5, 6), (5, 7), (5, 8)],
     Dist [(6, 0), (6, 1), (6, 2), (7, 0), (7, 1), (7, 2), (8, 0), (8, 1), (8, 2)],
     Dist [(6, 3), (6, 4), (6, 5), (7, 3), (7, 4), (7, 5), (8, 3), (8, 4), (8, 5)],
     Dist [(6, 6), (6, 7), (6, 8), (7, 6), (7, 7), (7, 8), (8, 6), (8, 7), (8, 8)],
     Suma [(0, 0), (1, 0)] 8,
     Suma [(0, 1), (0, 2), (1, 2)] 24,
     Suma [(0, 3), (1, 3)] 9,
     Suma [(0, 7), (0, 8), (1, 7), (1, 8)] 15,
     Suma [(1, 4), (1, 5), (1, 6)] 15,
     Suma [(2, 0), (3, 0), (3, 1)] 11,
     Suma [(2, 5), (2, 6), (2, 7), (3, 5)] 19,
     Suma [(2, 8), (3, 8)] 17,
     Suma [(3, 3), (4, 3)] 8,
     Suma [(3, 4), (4, 4)] 8,
     Suma [(3, 6), (3, 7), (4, 7)] 19,
     Suma [(4, 0), (5, 0)] 15,
     Suma [(4, 5), (4, 6)] 7,
     Suma [(4, 8), (5, 8)] 7,
     Suma [(5, 3), (5, 4)] 17,
     Suma [(5, 5), (5, 6)] 8,
     Suma [(5, 7), (6, 7), (6, 8)] 14,
     Dist [(5, 7), (6, 7), (6, 8)],
     Suma [(6, 0), (7, 0), (7, 1)] 16,
     Suma [(6, 1), (6, 2), (6, 3)] 17,
     Suma [(6, 4), (6, 5)] 10,
     Suma [(6, 6), (7, 6), (7, 7), (7, 8)] 21,
     Suma [(7, 2), (7, 3), (7, 4)] 8,
     Suma [(7, 5), (8, 3), (8, 4), (8, 5)] 22,
     Suma [(8, 0), (8, 1), (8, 2)] 17,
     Suma [(8, 6), (8, 7), (8, 8)] 14,
     Suma [(0, 0), (0, 1), (0, 2), (0, 3), (0, 7), (0, 8)] 31,
     Suma [(1, 0), (1, 2), (1, 3), (1, 7), (1, 8)] 25,
     Suma [(1, 1)] 5,
     Suma [(2, 1)] 1,
     Suma [(5, 0), (5, 1), (5, 2), (5, 8)] 16,
     Suma [(6, 7), (6, 8)] 10,
     Suma [(5, 7)] 4,
     Suma [(6, 0), (6, 6)] 8,
     Suma [(7, 5)] 8,
     Suma [(1, 0), (1, 1), (1, 2), (1, 3), (1, 7), (1, 8)] 30,
     Suma [(1, 1), (5, 1), (5, 2), (5, 0), (5, 8)] 21,
     Suma [(2, 1), (6, 0), (6, 6)] 9,
     Suma [(2, 0), (3, 0), (6, 0), (7, 0), (8, 0)] 22,
     Suma [(3, 1), (7, 1), (8, 1), (8, 2)] 22,
     Suma [(8, 0), (0, 1), (4, 1), (5, 1), (6, 1), (8, 1)] 34,
     Suma [(6, 1), (2, 2), (6, 2), (7, 2)] 15,
     Suma [(2, 2), (7, 2), (2, 3), (5, 3), (7, 3), (8, 3)] 26,
     Suma [(2, 4), (5, 4), (7, 4), (7, 5), (8, 4), (8, 5)] 37,
     Suma [(0, 5), (1, 5), (6, 5), (7, 5), (8, 5), (0, 6), (1, 6)] 39,
     Suma [(0, 6), (1, 6), (2, 6), (4, 6), (5, 6), (2, 7)] 28,
     Suma [(0, 4), (0, 5), (1, 4), (1, 5), (2, 5), (3, 5), (4, 5), (5, 5)] 35,
     Suma [(2, 7), (3, 7), (4, 7), (7, 7), (8, 7), (7, 8), (8, 8)] 37,
     Suma [(2, 5), (2, 6), (3, 5), (3, 6), (6, 6), (7, 6), (8, 6)] 36,
     Suma [(0, 8), (1, 8), (6, 8), (7, 8), (8, 8)] 21,
     Suma [(0, 2), (1, 2), (2, 2), (3, 2), (4, 2), (5, 2), (6, 2), (7, 2), (8, 2)] 45,
     Suma [(0, 4), (0, 5), (1, 4), (1, 5), (2, 5), (3, 5), (3, 8)] 35,
     Suma [(3, 0), (3, 1)] 7,
     Suma [(2, 0)] 4,
     Suma [(3, 5), (4, 5), (5, 5)] 12,
     Suma [(2, 5), (2, 6), (2, 7), (4, 6), (5, 6)] 22,
     Suma [(3, 8), (4, 6), (5, 6), (5, 7)] 19,
     Suma [(2, 0), (0, 4), (0, 5), (1, 4), (1, 5), (2, 5)] 27,
     Suma [(0, 6), (1, 6), (3, 0), (3, 1), (2, 6), (2, 7), (3, 5)] 32,
     Suma [(2, 2), (3, 5), (3, 8)] 15,
     Suma [(2, 2)] 3,
     Suma [(2, 3), (2, 4)] 13,
     Suma [(2, 8), (4, 5), (5, 5)] 17]"

definition certificado_sudoku :: cert where
  "certificado_sudoku =
     Pasos [ AcotaS 28 (1, 2), AcotaS 34 (2, 8), AcotaS 34 (3, 8), AcotaS 35 (3, 3), AcotaS 35 (4, 3),
     AcotaS 38 (5, 0), AcotaS 39 (4, 5), AcotaS 41 (5, 3), AcotaS 41 (5, 4), AcotaS 42 (5, 5),
     AcotaS 49 (7, 3), AcotaS 49 (7, 4), AcotaS 55 (1, 1), AcotaS 56 (2, 1), AcotaS 59 (5, 7),
     AcotaS 60 (6, 0), AcotaS 60 (6, 6), AcotaS 61 (7, 5), AcotaS 79 (3, 1), AcotaS 80 (2, 0),
     AcotaS 87 (2, 2), AcotaS 88 (2, 3), AcotaS 88 (2, 4), AcotaS 89 (5, 5), ElimD 1 (2, 0),
     ElimD 2 (1, 1), ElimD 3 (1, 1), ElimD 3 (2, 1), ElimD 4 (2, 0), ElimD 4 (2, 1), ElimD 4 (2, 2),
     ElimD 5 (2, 2), ElimD 10 (5, 7), ElimD 14 (7, 5), ElimD 15 (5, 7), ElimD 18 (1, 1),
     ElimD 18 (2, 1), ElimD 18 (2, 2), ElimD 23 (5, 7), ElimD 25 (7, 5), AcotaS 27 (0, 0),
     AcotaS 27 (1, 0), ElimD 44 (5, 7), AcotaS 69 (8, 3)] (Rama (2, 8) [ Pasos [ ElimD 17 (2, 8),
     ElimD 23 (3, 8), AcotaS 37 (3, 6), AcotaS 37 (3, 7), AcotaS 86 (3, 5), AcotaS 89 (5, 5),
     ElimD 22 (3, 5), AcotaS 81 (4, 5)] (Rama (4, 5) [ Pasos [ ElimD 8 (4, 5), AcotaS 39 (4, 6),
     AcotaS 83 (5, 6), Oculto 23 2 (5, 8), ElimD 8 (4, 6), AcotaS 40 (4, 8)] (Vacio (4, 8)), Pasos [
     AcotaS 39 (4, 6), AcotaS 83 (5, 6), ElimD 13 (4, 6)] (Vacio (5, 6))]), Pasos [ ElimD 4 (2, 8),
     ElimD 17 (2, 8), ElimD 17 (3, 8), ElimD 20 (2, 8), AcotaS 86 (3, 5), ElimD 6 (3, 5),
     ElimD 6 (3, 8), ElimD 11 (3, 5), ElimD 22 (3, 5)] (Rama (3, 1) [ Pasos [ ElimD 3 (3, 1),
     ElimD 21 (3, 1), AcotaS 32 (3, 0), ElimD 1 (3, 0), ElimD 21 (3, 0)] (Rama (5, 3) [ Pasos [
     ElimD 10 (5, 3), ElimD 10 (5, 4), AcotaS 29 (0, 3), AcotaS 29 (1, 3), Oculto 7 9 (6, 3),
     AcotaS 46 (6, 1), AcotaS 46 (6, 2), Oculto 12 8 (6, 7), AcotaS 43 (6, 8), ElimD 17 (6, 8)]
     (Rama (0, 0) [ Pasos [ ElimD 1 (0, 0), ElimD 1 (1, 0), ElimD 10 (5, 0), AcotaS 57 (5, 2),
     AcotaS 57 (5, 8), AcotaS 63 (5, 1), AcotaS 63 (5, 8), AcotaS 40 (4, 8)] (Vacio (4, 8)), Pasos [
     ElimD 1 (0, 0), ElimD 10 (5, 0), AcotaS 57 (5, 2), AcotaS 57 (5, 8), AcotaS 63 (5, 1),
     AcotaS 63 (5, 8), AcotaS 40 (4, 8)] (Vacio (4, 8))]), Pasos [ ElimD 7 (5, 3), ElimD 10 (5, 3),
     ElimD 10 (5, 4)] (Rama (0, 0) [ Pasos [ ElimD 1 (0, 0), ElimD 1 (1, 0), ElimD 1 (5, 0),
     ElimD 10 (5, 0), ElimD 21 (5, 0), AcotaS 38 (4, 0), AcotaS 42 (5, 6), AcotaS 45 (7, 0),
     AcotaS 57 (5, 2), AcotaS 57 (5, 8), AcotaS 65 (8, 0), ElimD 5 (5, 2), ElimD 8 (4, 0),
     ElimD 24 (7, 0), AcotaS 40 (4, 8), AcotaS 51 (8, 2)] (Rama (3, 2) [ Pasos [ ElimD 5 (3, 2),
     ElimD 21 (3, 2), ElimD 3 (5, 1), AcotaS 68 (6, 2), AcotaS 46 (6, 1), AcotaS 68 (6, 2),
     AcotaS 68 (7, 2), Oculto 5 5 (0, 2)] (Vacio (0, 2)), Pasos [ ElimD 6 (3, 2), ElimD 21 (3, 2),
     AcotaS 37 (3, 6), AcotaS 37 (3, 7), AcotaS 37 (4, 7), Oculto 23 1 (4, 6), AcotaS 39 (4, 5),
     AcotaS 83 (5, 6), ElimD 8 (4, 5), ElimD 10 (5, 6), ElimD 21 (4, 2), ElimD 21 (5, 1)]
     (Vacio (4, 1))]), Pasos [ ElimD 1 (0, 0), ElimD 1 (5, 0), ElimD 10 (5, 0), ElimD 21 (5, 0),
     AcotaS 38 (4, 0), AcotaS 42 (5, 6), AcotaS 45 (7, 0), AcotaS 57 (5, 2), AcotaS 57 (5, 8),
     AcotaS 65 (8, 0), ElimD 5 (5, 2), ElimD 8 (4, 0), ElimD 24 (7, 0), AcotaS 40 (4, 8),
     AcotaS 51 (8, 2)] (Rama (3, 2) [ Pasos [ ElimD 5 (3, 2), ElimD 21 (3, 2), ElimD 3 (5, 1),
     AcotaS 68 (6, 2), AcotaS 46 (6, 1), AcotaS 68 (6, 2), AcotaS 68 (7, 2), Oculto 5 5 (0, 2)]
     (Vacio (0, 2)), Pasos [ ElimD 6 (3, 2), ElimD 21 (3, 2), AcotaS 37 (3, 6), AcotaS 37 (3, 7),
     AcotaS 37 (4, 7), Oculto 23 1 (4, 6), AcotaS 39 (4, 5), AcotaS 83 (5, 6), ElimD 8 (4, 5),
     ElimD 10 (5, 6), ElimD 21 (4, 2), ElimD 21 (5, 1)] (Vacio (4, 1))])])]), Pasos [ AcotaS 32 (3, 0)]
     (Vacio (3, 0)), Pasos [ ElimD 3 (3, 1), ElimD 6 (3, 1), ElimD 21 (3, 1), AcotaS 32 (3, 0),
     AcotaS 38 (4, 0), AcotaS 38 (5, 0), AcotaS 57 (5, 2), ElimD 1 (3, 0), ElimD 6 (3, 0),
     ElimD 21 (3, 0), AcotaS 35 (4, 3), AcotaS 36 (4, 4), AcotaS 40 (4, 8)] (Rama (5, 0) [ Pasos [
     ElimD 1 (5, 0), ElimD 8 (4, 0), ElimD 10 (5, 0), ElimD 21 (5, 0), AcotaS 42 (5, 6),
     AcotaS 83 (4, 6), Oculto 8 7 (4, 7), Oculto 10 1 (5, 8), ElimD 15 (4, 7), ElimD 17 (5, 8),
     ElimD 23 (4, 7), ElimD 23 (5, 8), AcotaS 37 (3, 7), AcotaS 39 (4, 5), AcotaS 40 (4, 8),
     AcotaS 43 (6, 7), AcotaS 57 (5, 1), AcotaS 57 (5, 2), AcotaS 81 (5, 5), Oculto 10 2 (5, 6),
     Oculto 10 6 (5, 5), ElimD 8 (4, 8), ElimD 11 (5, 5), ElimD 13 (5, 6), ElimD 17 (4, 8),
     AcotaS 35 (3, 3), AcotaS 36 (3, 4), AcotaS 39 (4, 5), AcotaS 39 (4, 6), AcotaS 81 (4, 5),
     Oculto 6 2 (3, 2), ElimD 8 (4, 5), ElimD 8 (4, 6), ElimD 11 (4, 5), ElimD 13 (4, 6),
     ElimD 23 (4, 6), AcotaS 33 (2, 7), AcotaS 72 (0, 6), AcotaS 72 (1, 6), ElimD 20 (2, 7)]
     (Rama (0, 0) [ Pasos [ ElimD 0 (0, 0), ElimD 1 (0, 0), ElimD 1 (1, 0), ElimD 2 (1, 0),
     ElimD 18 (1, 0), AcotaS 60 (6, 6), AcotaS 64 (6, 0), AcotaS 64 (6, 6), ElimD 1 (6, 0),
     ElimD 12 (6, 0), ElimD 12 (6, 6), ElimD 13 (6, 6), ElimD 23 (3, 6), AcotaS 43 (6, 8),
     AcotaS 45 (7, 1), AcotaS 48 (7, 6), AcotaS 48 (7, 7), AcotaS 58 (6, 7), Oculto 13 1 (8, 6),
     ElimD 12 (6, 8), ElimD 15 (3, 7), ElimD 15 (6, 7), ElimD 16 (8, 6), ElimD 20 (1, 7),
     AcotaS 30 (0, 8), AcotaS 30 (1, 8), AcotaS 45 (7, 0), AcotaS 45 (7, 1), AcotaS 52 (8, 7),
     AcotaS 54 (1, 3), AcotaS 62 (1, 2), AcotaS 65 (8, 0), AcotaS 66 (8, 1), AcotaS 66 (8, 2),
     Oculto 2 2 (1, 4), Oculto 2 9 (1, 5), Oculto 16 8 (8, 1), ElimD 3 (8, 1), ElimD 9 (1, 4),
     ElimD 11 (1, 5), ElimD 14 (7, 0), ElimD 14 (7, 1), ElimD 16 (8, 0), AcotaS 29 (0, 3),
     AcotaS 29 (1, 3), AcotaS 31 (1, 6), AcotaS 47 (6, 4), AcotaS 47 (6, 5), AcotaS 48 (7, 6),
     AcotaS 48 (7, 8), AcotaS 50 (8, 4), AcotaS 51 (8, 2), AcotaS 53 (0, 1), AcotaS 54 (1, 2),
     AcotaS 54 (1, 8), AcotaS 67 (4, 1), AcotaS 67 (6, 1), AcotaS 68 (6, 2), AcotaS 68 (7, 2),
     AcotaS 71 (0, 5), AcotaS 72 (2, 6), AcotaS 73 (0, 5), AcotaS 75 (2, 5), AcotaS 77 (4, 2),
     AcotaS 78 (0, 4), AcotaS 78 (0, 5), AcotaS 82 (2, 6), AcotaS 84 (0, 4), AcotaS 85 (0, 6),
     Oculto 0 6 (0, 7), Oculto 0 8 (0, 2), Oculto 7 2 (8, 3), Oculto 11 7 (8, 5), Oculto 13 6 (7, 6),
     Oculto 20 5 (0, 8), Oculto 26 4 (8, 8), ElimD 7 (0, 3), ElimD 7 (1, 3), ElimD 7 (4, 3),
     ElimD 7 (5, 3), ElimD 8 (4, 3), ElimD 9 (4, 4), ElimD 10 (5, 3), ElimD 12 (6, 1), ElimD 12 (6, 5),
     ElimD 14 (7, 6), ElimD 14 (7, 7), ElimD 16 (8, 2), ElimD 16 (8, 5), ElimD 24 (6, 2),
     ElimD 25 (7, 3), AcotaS 35 (3, 3), AcotaS 36 (3, 4), AcotaS 47 (6, 4), AcotaS 69 (2, 3),
     AcotaS 70 (2, 4)] (Hecho), Pasos [ ElimD 0 (0, 0), ElimD 1 (0, 0), ElimD 1 (1, 0),
     ElimD 18 (0, 0), AcotaS 60 (6, 6), AcotaS 64 (6, 0), AcotaS 64 (6, 6), ElimD 1 (6, 0),
     ElimD 12 (6, 0), ElimD 12 (6, 6), ElimD 13 (6, 6), ElimD 23 (3, 6), AcotaS 43 (6, 8),
     AcotaS 45 (7, 1), AcotaS 48 (7, 6), AcotaS 58 (6, 7), Oculto 13 1 (8, 6), ElimD 15 (3, 7),
     ElimD 15 (6, 7), AcotaS 45 (7, 0), ElimD 14 (7, 0), AcotaS 48 (7, 6), AcotaS 48 (7, 8),
     Oculto 15 9 (8, 7), Oculto 26 4 (8, 8), ElimD 17 (8, 8), AcotaS 74 (7, 8), AcotaS 76 (1, 8),
     Oculto 17 5 (0, 8), Oculto 26 5 (7, 7), Oculto 26 6 (7, 6), ElimD 0 (0, 8), ElimD 13 (7, 6),
     ElimD 15 (0, 7), AcotaS 33 (2, 5), AcotaS 33 (2, 6), AcotaS 54 (1, 3), ElimD 2 (1, 7),
     ElimD 4 (2, 5), ElimD 4 (2, 6), ElimD 19 (1, 3), ElimD 19 (2, 3)] (Vacio (2, 4))]), Pasos [
     ElimD 10 (5, 0), ElimD 10 (5, 3)] (Vacio (5, 4))])])])"

section \<open>The construction in closed form\<close>

lemma crear_celda_eq:
  "crear_celda n k (vt, s) = (vt(k \<mapsto> nombre k), s @ [Ge (nombre k) 1, Le (nombre k) n])"
  by (simp add: crear_celda_def crear_variable_entera_def nombre_def)

lemma fold_crear_celda:
  "fold (crear_celda n) ks (vt, s) =
     ((\<lambda>k. if k \<in> set ks then Some (nombre k) else vt k),
      s @ concat (map (\<lambda>k. [Ge (nombre k) 1, Le (nombre k) n]) ks))"
proof (induction ks arbitrary: vt s)
  case Nil
  show ?case by simp
next
  case (Cons k ks)
  show ?case
    by (simp add: Cons.IH crear_celda_eq fun_eq_iff)
qed

lemma crear_celdas_eq: "crear_celdas n = (dicc_tablero n, cotas n)"
  by (simp add: crear_celdas_def fold_crear_celda dicc_tablero_def cotas_def celdas_def)

lemma celdas_iff: "k \<in> set (celdas n) \<longleftrightarrow> 0 \<le> fst k \<and> fst k < n \<and> 0 \<le> snd k \<and> snd k < n"
  by (cases k) (auto simp: celdas_def rango_def)

lemma buscar_todas_ok:
  "set ks \<subseteq> set (celdas n) \<Longrightarrow> buscar_todas (dicc_tablero n) ks = Inr (map nombre ks)"
  by (induction ks) (auto simp: buscar_def dicc_tablero_def ligar_def)

lemma buscar_todas_cases:
  "buscar_todas vt ks = Inl KeyError \<or> (\<exists>vs. buscar_todas vt ks = Inr vs)"
  by (induction ks) (auto simp: buscar_def ligar_def split: option.splits)

lemma buscar_todas_falla:
  "\<not> set ks \<subseteq> set (celdas n) \<Longrightarrow> buscar_todas (dicc_tablero n) ks = Inl KeyError"
proof (induction ks)
  case Nil
  then show ?case by simp
next
  case (Cons k ks)
  show ?case
  proof (cases "k \<in> set (celdas n)")
    case True
    with Cons have "buscar_todas (dicc_tablero n) ks = Inl KeyError" by simp
    then show ?thesis by (simp add: ligar_def buscar_def dicc_tablero_def True)
  next
    case False
    then show ?thesis by (simp add: ligar_def buscar_def dicc_tablero_def)
  qed
qed

lemma por_cada_append:
  "(\<And>x s. x \<in> set xs \<Longrightarrow> f x s = Inr (s @ g x)) \<Longrightarrow>
   por_cada f xs s = Inr (s @ concat (map g xs))"
  by (induction xs arbitrary: s) (simp_all add: ligar_def)

lemma por_cada_Inr_all:
  "por_cada f xs s = Inr s' \<Longrightarrow> x \<in> set xs \<Longrightarrow> \<exists>s1 s2. f x s1 = Inr s2"
proof (induction xs arbitrary: s)
  case Nil
  then show ?case by simp
next
  case (Cons y ys)
  then show ?case
    by (cases "f y s") (auto simp: ligar_def)
qed

lemma por_cada_Inl:
  "por_cada f xs s = Inl e \<Longrightarrow> \<exists>x \<in> set xs. \<exists>s1. f x s1 = Inl e"
proof (induction xs arbitrary: s)
  case Nil
  then show ?case by simp
next
  case (Cons y ys)
  then show ?case
    by (cases "f y s") (auto simp: ligar_def)
qed

lemma agregar_distinct_ok:
  "set ks \<subseteq> set (celdas n) \<Longrightarrow> ks \<noteq> [] \<Longrightarrow>
   agregar_distinct (dicc_tablero n) ks s = Inr (s @ [Distinct (map nombre ks)])"
  by (simp add: agregar_distinct_def buscar_todas_ok ligar_def z3_Distinct_def)

lemma agregar_distinct_falla:
  "\<not> set ks \<subseteq> set (celdas n) \<Longrightarrow> agregar_distinct (dicc_tablero n) ks s = Inl KeyError"
  by (simp add: agregar_distinct_def buscar_todas_falla ligar_def)

lemma rango_iff: "x \<in> set (rango n) \<longleftrightarrow> 0 \<le> x \<and> x < n"
  by (auto simp: rango_def)

lemma rango_vacio: "rango n = [] \<longleftrightarrow> n \<le> 0"
  by (auto simp: rango_def)

lemma filas_columnas_ok: "filas_columnas (dicc_tablero n) n s = Inr (s @ filas n)"
  unfolding filas_columnas_def filas_def
proof (rule por_cada_append)
  fix fila s
  assume f: "fila \<in> set (rango n)"
  then have ne: "rango n \<noteq> []" by auto
  have a: "set (map (\<lambda>columna. (fila, columna)) (rango n)) \<subseteq> set (celdas n)"
    using f by (auto simp: celdas_iff rango_iff)
  have b: "set (map (\<lambda>columna. (columna, fila)) (rango n)) \<subseteq> set (celdas n)"
    using f by (auto simp: celdas_iff rango_iff)
  show "ligar (agregar_distinct (dicc_tablero n) (map (Pair fila) (rango n)) s)
          (agregar_distinct (dicc_tablero n) (map (\<lambda>columna. (columna, fila)) (rango n))) =
        Inr (s @ [Distinct (map (\<lambda>columna. nombre (fila, columna)) (rango n)),
                  Distinct (map (\<lambda>columna. nombre (columna, fila)) (rango n))])"
    using agregar_distinct_ok [OF a] agregar_distinct_ok [OF b] ne
    by (simp add: ligar_def o_def)
qed

lemma raiz_entera_eq: "raiz_entera n = (if n < 0 then Inl TypeError else Inr (raiz n))"
  by (simp add: raiz_entera_def raiz_def)

lemma raiz_pos: "1 \<le> n \<Longrightarrow> 1 \<le> raiz n"
proof -
  assume "1 \<le> n"
  then have "1 \<in> set (filter (\<lambda>k. k * k \<le> n) [1..n])" by simp
  then have "filter (\<lambda>k. k * k \<le> n) [1..n] \<noteq> []" by (metis empty_iff empty_set)
  then show ?thesis by (simp add: raiz_def Suc_le_eq)
qed

lemma raiz_cero: "raiz 0 = 0"
  by (simp add: raiz_def)

lemma inicio_en_tablero:
  assumes "1 \<le> sub" "sub dvd n" "i \<in> set (inicios n sub)" "r \<in> set (rango sub)"
  shows "0 \<le> i + r \<and> i + r < n"
proof -
  from assms(3) obtain k where "k \<in> set [0..(n - 1) div sub]" and "i = k * sub"
    unfolding inicios_def by auto
  then have k: "i = k * sub" "0 \<le> k" "k \<le> (n - 1) div sub" by simp_all
  from assms(2) obtain q where q: "n = sub * q" by (auto simp: dvd_def)
  have r: "0 \<le> r" "r < sub" using assms(4) by (auto simp: rango_iff)
  have "k * sub \<le> n - 1" 
  proof -
    have "k * sub \<le> ((n - 1) div sub) * sub" using k assms(1) by (simp add: mult_right_mono)
    also have "\<dots> \<le> n - 1" using assms(1)
      by (metis add.commute add_le_cancel_left div_mult_mod_eq le_add_same_cancel1 less_le_trans pos_mod_sign zero_less_one)
    finally show ?thesis .
  qed
  have "(k + 1) * sub \<le> n"
  proof -
    have "k < q"
    proof (rule ccontr)
      assume "\<not> k < q"
      then have "q \<le> k" by simp
      then have "q * sub \<le> k * sub" using assms(1) by (simp add: mult_right_mono)
      with \<open>k * sub \<le> n - 1\<close> q show False by (simp add: mult.commute)
    qed
    then have "k + 1 \<le> q" by simp
    then have "(k + 1) * sub \<le> q * sub" using assms(1) by (simp add: mult_right_mono)
    with q show ?thesis by (simp add: mult.commute)
  qed
  then have "k * sub + sub \<le> n" by (simp add: algebra_simps)
  moreover have "0 \<le> k * sub" using k assms(1) by simp
  ultimately show ?thesis using r k by simp
qed

lemma celdas_bloque_en_tablero:
  assumes "1 \<le> sub" "sub dvd n" "fi \<in> set (inicios n sub)" "ci \<in> set (inicios n sub)"
  shows "set (celdas_bloque sub fi ci) \<subseteq> set (celdas n)"
  using inicio_en_tablero [OF assms(1,2,3)] inicio_en_tablero [OF assms(1,2,4)]
  by (auto simp: celdas_bloque_def celdas_iff)

lemma celdas_bloque_no_vacio: "1 \<le> sub \<Longrightarrow> celdas_bloque sub fi ci \<noteq> []"
proof -
  assume "1 \<le> sub"
  then have "0 \<in> set (rango sub)" by (simp add: rango_iff)
  then have "(0, 0) \<in> set (List.product (rango sub) (rango sub))" by simp
  then have "List.product (rango sub) (rango sub) \<noteq> []" by (metis empty_iff empty_set)
  then show ?thesis by (simp add: celdas_bloque_def)
qed

lemma subcuadriculas_ok:
  assumes "1 \<le> sub" "sub dvd n"
  shows "subcuadriculas (dicc_tablero n) n sub s = Inr (s @ bloques n sub)"
proof -
  have r: "rango_paso n sub = Inr (inicios n sub)"
    using assms(1) by (simp add: rango_paso_def inicios_def)
  have inner: "por_cada (\<lambda>ci. agregar_distinct (dicc_tablero n) (celdas_bloque sub fi ci))
                 (inicios n sub) s' =
               Inr (s' @ concat (map (\<lambda>ci. [Distinct (map nombre (celdas_bloque sub fi ci))])
                                   (inicios n sub)))"
    if "fi \<in> set (inicios n sub)" for fi s'
    by (rule por_cada_append)
       (simp add: agregar_distinct_ok celdas_bloque_en_tablero [OF assms that]
          celdas_bloque_no_vacio [OF assms(1)])
  show ?thesis
    unfolding subcuadriculas_def r bloques_def
    by (simp only: ligar_def sum.case) (rule por_cada_append, rule inner)
qed

lemma buscar_todas_length: "buscar_todas vt ks = Inr vs \<Longrightarrow> length vs = length ks"
proof (induction ks arbitrary: vs)
  case Nil
  then show ?case by simp
next
  case (Cons k ks)
  from Cons.prems obtain v where v: "buscar vt k = Inr v"
    by (cases "buscar vt k") (simp_all add: ligar_def)
  with Cons.prems obtain vs' where vs': "buscar_todas vt ks = Inr vs'"
    by (cases "buscar_todas vt ks") (simp_all add: ligar_def)
  with v Cons.prems have "vs = v # vs'" by (simp add: ligar_def)
  with Cons.IH [OF vs'] show ?case by simp
qed

lemma agregar_distinct_error:
  assumes "ks \<noteq> []" "agregar_distinct vt ks s = Inl e"
  shows "e = KeyError"
proof -
  from buscar_todas_cases [of vt ks] show ?thesis
  proof
    assume "buscar_todas vt ks = Inl KeyError"
    with assms(2) show ?thesis by (simp add: agregar_distinct_def ligar_def)
  next
    assume "\<exists>vs. buscar_todas vt ks = Inr vs"
    then obtain vs where vs: "buscar_todas vt ks = Inr vs" ..
    with assms(1) have "vs \<noteq> []" using buscar_todas_length [OF vs] by auto
    with assms(2) vs show ?thesis
      by (simp add: agregar_distinct_def ligar_def z3_Distinct_def)
  qed
qed

lemma ultimo_bloque_fuera:
  fixes n sub :: int
  assumes "1 \<le> sub" "1 \<le> n" "\<not> sub dvd n"
  shows "n \<le> ((n - 1) div sub) * sub + (sub - 1)"
proof -
  define q where "q = (n - 1) div sub"
  define r where "r = (n - 1) mod sub"
  have eq: "n - 1 = q * sub + r" by (simp add: q_def r_def)
  have lt: "r < sub" using assms(1) by (simp add: r_def)
  have "r \<noteq> sub - 1"
  proof
    assume "r = sub - 1"
    with eq have "n = (q + 1) * sub" by (simp add: algebra_simps)
    then have "sub dvd n" by simp
    with assms(3) show False by simp
  qed
  with lt have "r < sub - 1" by simp
  with eq have "n \<le> q * sub + (sub - 1)" by simp
  then show ?thesis by (simp only: q_def)
qed

lemma subcuadriculas_falla:
  assumes "1 \<le> sub" "1 \<le> n" "\<not> sub dvd n"
  shows "subcuadriculas (dicc_tablero n) n sub s = Inl KeyError"
proof -
  let ?f = "\<lambda>fi. por_cada (\<lambda>ci. agregar_distinct (dicc_tablero n) (celdas_bloque sub fi ci))
                      (inicios n sub)"
  have r: "rango_paso n sub = Inr (inicios n sub)"
    using assms(1) by (simp add: rango_paso_def inicios_def)
  have eq: "subcuadriculas (dicc_tablero n) n sub s = por_cada ?f (inicios n sub) s"
    unfolding subcuadriculas_def r by (simp add: ligar_def)
  show ?thesis
  proof (cases "por_cada ?f (inicios n sub) s")
    case (Inl e)
    then obtain fi s1 where "?f fi s1 = Inl e" using por_cada_Inl by fastforce
    then obtain ci s2 where
      "agregar_distinct (dicc_tablero n) (celdas_bloque sub fi ci) s2 = Inl e"
      using por_cada_Inl by fastforce
    then have "e = KeyError"
      using agregar_distinct_error celdas_bloque_no_vacio [OF assms(1)] by blast
    with Inl eq show ?thesis by simp
  next
    case (Inr s')
    define k0 where "k0 = (n - 1) div sub"
    have k0: "0 \<le> k0" using assms by (simp add: k0_def pos_imp_zdiv_nonneg_iff)
    then have "k0 \<in> set [0..(n - 1) div sub]" "0 \<in> set [0..(n - 1) div sub]"
      by (simp_all add: k0_def)
    then have "k0 * sub \<in> (\<lambda>k. k * sub) ` set [0..(n - 1) div sub]"
      "0 * sub \<in> (\<lambda>k. k * sub) ` set [0..(n - 1) div sub]"
      by (blast, blast)
    then have fi: "k0 * sub \<in> set (inicios n sub)" and ci: "0 \<in> set (inicios n sub)"
      by (simp_all add: inicios_def)
    from por_cada_Inr_all [OF Inr fi] obtain s1 s2 where "?f (k0 * sub) s1 = Inr s2" by blast
    from por_cada_Inr_all [OF this ci] obtain s3 s4 where
      ok: "agregar_distinct (dicc_tablero n) (celdas_bloque sub (k0 * sub) 0) s3 = Inr s4"
      by blast
    have "sub - 1 \<in> set (rango sub)" "0 \<in> set (rango sub)"
      using assms(1) by (simp_all add: rango_iff)
    then have "(k0 * sub + (sub - 1), 0) \<in> set (celdas_bloque sub (k0 * sub) 0)"
      by (force simp: celdas_bloque_def image_iff)
    moreover have "(k0 * sub + (sub - 1), 0) \<notin> set (celdas n)"
      using ultimo_bloque_fuera [OF assms] by (simp add: celdas_iff k0_def)
    ultimately have "\<not> set (celdas_bloque sub (k0 * sub) 0) \<subseteq> set (celdas n)" by blast
    from agregar_distinct_falla [OF this] ok show ?thesis by simp
  qed
qed

lemma claves_jaula:
  "set (map (\<lambda>fc. (fst fc - 1, snd fc - 1)) (snd j)) \<subseteq> set (celdas n) \<longleftrightarrow> en_tablero n j"
  by (auto simp: en_tablero_def celdas_iff list_all_iff)

lemma nombre_clave: "map nombre (map (\<lambda>fc. (fst fc - 1, snd fc - 1)) cs) = cs"
  by (induction cs) (simp_all add: nombre_def)

lemma agregar_jaula_eq:
  "agregar_jaula (dicc_tablero n) j s =
     (if \<not> en_tablero n j then Inl KeyError
      else if snd j = [] then Inl Z3Exception
      else Inr (s @ [SumEq (snd j) (fst j), Distinct (snd j)]))"
proof (cases "en_tablero n j")
  case True
  then have "buscar_todas (dicc_tablero n) (map (\<lambda>fc. (fst fc - 1, snd fc - 1)) (snd j)) =
             Inr (snd j)"
    using buscar_todas_ok [of "map (\<lambda>fc. (fst fc - 1, snd fc - 1)) (snd j)" n]
    by (simp only: claves_jaula nombre_clave)
  with True show ?thesis
    by (simp add: agregar_jaula_def ligar_def agregar_restriccion_jaula_def z3_Distinct_def)
next
  case False
  then have "buscar_todas (dicc_tablero n) (map (\<lambda>fc. (fst fc - 1, snd fc - 1)) (snd j)) =
             Inl KeyError"
    using buscar_todas_falla [of "map (\<lambda>fc. (fst fc - 1, snd fc - 1)) (snd j)" n]
      claves_jaula [of j n] by blast
  with False show ?thesis by (simp add: agregar_jaula_def ligar_def)
qed

lemma por_cada_jaulas_ok:
  "jaulas_validas n restricciones \<Longrightarrow>
   por_cada (agregar_jaula (dicc_tablero n)) restricciones s = Inr (s @ jaulas restricciones)"
  unfolding jaulas_def
  by (rule por_cada_append) (simp add: agregar_jaula_eq jaulas_validas_def list_all_iff)

lemma por_cada_jaulas_Inr:
  assumes "por_cada (agregar_jaula (dicc_tablero n)) restricciones s = Inr s'"
  shows "jaulas_validas n restricciones"
  unfolding jaulas_validas_def list_all_iff
proof
  fix j assume "j \<in> set restricciones"
  from por_cada_Inr_all [OF assms this] show "en_tablero n j \<and> snd j \<noteq> []"
    by (auto simp: agregar_jaula_eq split: if_splits)
qed

lemma por_cada_jaulas_KeyError:
  assumes "\<not> list_all (en_tablero n) restricciones" "list_all (\<lambda>j. snd j \<noteq> []) restricciones"
  shows "por_cada (agregar_jaula (dicc_tablero n)) restricciones s = Inl KeyError"
proof (cases "por_cada (agregar_jaula (dicc_tablero n)) restricciones s")
  case (Inl e)
  then obtain j s1 where "j \<in> set restricciones" "agregar_jaula (dicc_tablero n) j s1 = Inl e"
    using por_cada_Inl by fastforce
  with assms(2) have "e = KeyError"
    by (auto simp: agregar_jaula_eq list_all_iff split: if_splits)
  with Inl show ?thesis by simp
next
  case (Inr s')
  from por_cada_jaulas_Inr [OF this] assms(1) show ?thesis
    by (auto simp: jaulas_validas_def list_all_iff)
qed

lemma construir_eq:
  "construir restricciones n =
     (if n < 0 then Inl TypeError
      else if n = 0 then Inl ValueError
      else if \<not> raiz n dvd n then Inl KeyError
      else ligar (por_cada (agregar_jaula (dicc_tablero n)) restricciones (base n))
             (\<lambda>s. Inr (dicc_tablero n, s)))"
proof -
  consider "n < 0" | "n = 0" | "1 \<le> n" "\<not> raiz n dvd n" | "1 \<le> n" "raiz n dvd n"
    by linarith
  then show ?thesis
  proof cases
    case 1
    then show ?thesis
      by (simp add: construir_def crear_celdas_eq filas_columnas_ok raiz_entera_eq ligar_def)
  next
    case 2
    then show ?thesis
      by (simp add: construir_def crear_celdas_eq filas_columnas_ok raiz_entera_eq ligar_def
            raiz_cero subcuadriculas_def rango_paso_def)
  next
    case 3
    then show ?thesis
      by (simp add: construir_def crear_celdas_eq filas_columnas_ok raiz_entera_eq ligar_def
            subcuadriculas_falla raiz_pos)
  next
    case 4
    then show ?thesis
      by (simp add: construir_def crear_celdas_eq filas_columnas_ok raiz_entera_eq ligar_def
            subcuadriculas_ok raiz_pos base_def)
  qed
qed

lemma construir_ok:
  "instancia_valida n restricciones \<Longrightarrow>
   construir restricciones n = Inr (dicc_tablero n, base n @ jaulas restricciones)"
  by (auto simp: construir_eq instancia_valida_def por_cada_jaulas_ok ligar_def)

lemma construir_Inr:
  assumes "construir restricciones n = Inr r"
  shows "instancia_valida n restricciones"
proof -
  from assms have n: "1 \<le> n" "raiz n dvd n"
    by (auto simp: construir_eq split: if_splits)
  with assms obtain s where
    "por_cada (agregar_jaula (dicc_tablero n)) restricciones (base n) = Inr s"
    by (cases "por_cada (agregar_jaula (dicc_tablero n)) restricciones (base n)")
       (auto simp: construir_eq ligar_def split: if_splits)
  from por_cada_jaulas_Inr [OF this] n show ?thesis by (simp add: instancia_valida_def)
qed

section \<open>The enumeration loop\<close>

lemma evaluar_tablero_eq: "evaluar_tablero (dicc_tablero n) n m = Inr (cuadricula n m)"
proof -
  have "por_cada (\<lambda>fila filas.
            ligar (buscar_todas (dicc_tablero n) (map (\<lambda>columna. (fila, columna)) (rango n)))
              (\<lambda>vs. Inr (filas @ [map m vs])))
          (rango n) [] =
        Inr ([] @ concat (map (\<lambda>fila. [map (\<lambda>columna. m (nombre (fila, columna))) (rango n)])
                           (rango n)))"
  proof (rule por_cada_append)
    fix fila s
    assume "fila \<in> set (rango n)"
    then have "set (map (\<lambda>columna. (fila, columna)) (rango n)) \<subseteq> set (celdas n)"
      by (auto simp: celdas_iff rango_iff)
    from buscar_todas_ok [OF this]
    show "ligar (buscar_todas (dicc_tablero n) (map (Pair fila) (rango n)))
            (\<lambda>vs. Inr (s @ [map m vs])) =
          Inr (s @ [map (\<lambda>columna. m (nombre (fila, columna))) (rango n)])"
      by (simp add: ligar_def o_def)
  qed
  then show ?thesis by (simp add: evaluar_tablero_def cuadricula_def)
qed

lemma bloqueo_eq: "bloqueo (dicc_tablero n) n m = Inr (clausula n m)"
  using buscar_todas_ok [of "celdas n" n]
  by (simp add: bloqueo_def clausula_def ligar_def celdas_def)

lemma paso_eq:
  "paso (dicc_tablero n) n m st =
     Inr \<lparr>restr = restr st @ [clausula n m],
          encontradas = encontradas st + 1,
          salida = salida st @ [cuadricula n m]\<rparr>"
  by (simp add: paso_def evaluar_tablero_eq bloqueo_eq ligar_def)

lemma cuadricula_eq_iff:
  "cuadricula n m' = cuadricula n m \<longleftrightarrow> (\<forall>k \<in> set (celdas n). m' (nombre k) = m (nombre k))"
  by (auto simp: cuadricula_def celdas_def)

lemma satisface_clausula:
  "satisface m' (clausula n m) \<longleftrightarrow> cuadricula n m' \<noteq> cuadricula n m"
  by (auto simp: clausula_def cuadricula_eq_iff list_ex_iff)

lemma satisface_todas_append:
  "satisface_todas m (cs @ ds) \<longleftrightarrow> satisface_todas m cs \<and> satisface_todas m ds"
  by (simp add: satisface_todas_def)

lemma soluciones_clausula:
  "soluciones n (cs @ [clausula n m]) = soluciones n cs - {cuadricula n m}"
  by (auto simp: soluciones_def satisface_todas_append satisface_todas_def satisface_clausula)

lemma acotada_tablero:
  assumes "set (cotas n) \<subseteq> set cs" "k \<in> set (celdas n)"
  shows "acotada cs (nombre k)"
proof -
  from assms have "Ge (nombre k) 1 \<in> set cs" "Le (nombre k) n \<in> set cs"
    by (auto simp: cotas_def)
  then have "\<exists>c \<in> set cs. (case c of Ge u b \<Rightarrow> u = nombre k | _ \<Rightarrow> False)"
    "\<exists>c \<in> set cs. (case c of Le u b \<Rightarrow> u = nombre k | _ \<Rightarrow> False)"
    by (force, force)
  then show ?thesis
    unfolding acotada_def list_ex_iff by simp
qed

lemma sobre_tablero_finito:
  assumes "sobre_tablero n cs"
  shows "dominio_finito cs"
  unfolding dominio_finito_def list_all_iff
proof
  fix v assume "v \<in> set (concat (map variables_de cs))"
  then obtain c where "c \<in> set cs" "v \<in> set (variables_de c)" by auto
  with assms obtain k where "k \<in> set (celdas n)" "v = nombre k"
    unfolding sobre_tablero_def by blast
  with assms show "acotada cs v"
    using acotada_tablero [of n cs k] by (simp add: sobre_tablero_def)
qed

lemma sobre_tablero_clausula: "sobre_tablero n cs \<Longrightarrow> sobre_tablero n (cs @ [clausula n m])"
  by (auto simp: sobre_tablero_def clausula_def)

lemma sobre_tablero_cotas:
  assumes "sobre_tablero n cs" "satisface_todas m cs" "k \<in> set (celdas n)"
  shows "1 \<le> m (nombre k) \<and> m (nombre k) \<le> n"
proof -
  from assms(1,3) have "Ge (nombre k) 1 \<in> set cs" "Le (nombre k) n \<in> set cs"
    by (auto simp: cotas_def sobre_tablero_def)
  with assms(2) have "satisface m (Ge (nombre k) 1)" "satisface m (Le (nombre k) n)"
    by (auto simp: satisface_todas_def list_all_iff)
  then show ?thesis by simp
qed

lemma soluciones_finitas:
  assumes "sobre_tablero n cs"
  shows "finite (soluciones n cs)"
proof -
  let ?N = "length (rango n)"
  let ?R = "{row. set row \<subseteq> {1..n} \<and> length row = ?N}"
  have fR: "finite ?R" by (rule finite_lists_length_eq) simp
  have "soluciones n cs \<subseteq> {g. set g \<subseteq> ?R \<and> length g = ?N}"
  proof
    fix g assume "g \<in> soluciones n cs"
    then obtain m where m: "satisface_todas m cs" and g: "g = cuadricula n m"
      by (auto simp: soluciones_def)
    have "m (nombre (f, c)) \<in> {1..n}" if "f \<in> set (rango n)" "c \<in> set (rango n)" for f c
      using sobre_tablero_cotas [OF assms m, of "(f, c)"] that by (simp add: celdas_def)
    then show "g \<in> {g. set g \<subseteq> ?R \<and> length g = ?N}"
      by (auto simp: g cuadricula_def)
  qed
  moreover have "finite {g. set g \<subseteq> ?R \<and> length g = ?N}"
    by (rule finite_lists_length_eq) (rule fR)
  ultimately show ?thesis by (rule finite_subset)
qed

lemma bucle_enumera:
  assumes z3: "solucionador_z3 check"
  shows "sobre_tablero n (restr st) \<Longrightarrow>
    \<exists>ms. bucle check (dicc_tablero n) n st =
            Some (Inr \<lparr>restr = restr st @ map (clausula n) ms,
                       encontradas = encontradas st + length ms,
                       salida = salida st @ map (cuadricula n) ms\<rparr>)
        \<and> distinct (map (cuadricula n) ms)
        \<and> cuadricula n ` set ms = soluciones n (restr st)
        \<and> (\<forall>m \<in> set ms. satisface_todas m (restr st))"
proof (induction "card (soluciones n (restr st))" arbitrary: st rule: less_induct)
  case less
  note sobre = less.prems
  have fd: "dominio_finito (restr st)" using sobre by (rule sobre_tablero_finito)
  show ?case
  proof (cases "check (restr st)")
    case None
    with z3 fd have "\<forall>m. \<not> satisface_todas m (restr st)"
      by (auto simp: solucionador_z3_def)
    then have "soluciones n (restr st) = {}" by (simp add: soluciones_def)
    moreover have "bucle check (dicc_tablero n) n st = Some (Inr st)"
      by (subst bucle.simps) (simp add: None)
    ultimately show ?thesis
      by (intro exI [of _ "[]"]) simp
  next
    case (Some m)
    with z3 fd have m: "satisface_todas m (restr st)"
      by (auto simp: solucionador_z3_def)
    define st' where "st' = \<lparr>restr = restr st @ [clausula n m],
          encontradas = encontradas st + 1, salida = salida st @ [cuadricula n m]\<rparr>"
    have step: "bucle check (dicc_tablero n) n st = bucle check (dicc_tablero n) n st'"
      by (subst bucle.simps) (simp add: Some paso_eq st'_def)
    have sol': "soluciones n (restr st') = soluciones n (restr st) - {cuadricula n m}"
      by (simp add: st'_def soluciones_clausula)
    have mem: "cuadricula n m \<in> soluciones n (restr st)"
      using m by (auto simp: soluciones_def)
    have "card (soluciones n (restr st')) < card (soluciones n (restr st))"
      unfolding sol' using soluciones_finitas [OF sobre] mem
      by (rule card_Diff1_less)
    moreover have "sobre_tablero n (restr st')"
      using sobre by (simp add: st'_def sobre_tablero_clausula)
    ultimately obtain ms where
      r: "bucle check (dicc_tablero n) n st' =
            Some (Inr \<lparr>restr = restr st' @ map (clausula n) ms,
                       encontradas = encontradas st' + length ms,
                       salida = salida st' @ map (cuadricula n) ms\<rparr>)"
      and d: "distinct (map (cuadricula n) ms)"
      and s: "cuadricula n ` set ms = soluciones n (restr st')"
      and a: "\<forall>m \<in> set ms. satisface_todas m (restr st')"
      using less.hyps by blast
    have "bucle check (dicc_tablero n) n st =
            Some (Inr \<lparr>restr = restr st @ map (clausula n) (m # ms),
                       encontradas = encontradas st + length (m # ms),
                       salida = salida st @ map (cuadricula n) (m # ms)\<rparr>)"
      using r by (simp add: step st'_def)
    moreover have "distinct (map (cuadricula n) (m # ms))"
      using d s sol' by auto
    moreover have "cuadricula n ` set (m # ms) = soluciones n (restr st)"
      using s sol' mem by auto
    moreover have "\<forall>m' \<in> set (m # ms). satisface_todas m' (restr st)"
      using a m by (auto simp: st'_def satisface_todas_append)
    ultimately show ?thesis by blast
  qed
qed

lemma sobre_tablero_instancia:
  assumes "instancia_valida n restricciones"
  shows "sobre_tablero n (base n @ jaulas restricciones)"
proof -
  from assms have n: "1 \<le> n" and d: "raiz n dvd n" and j: "jaulas_validas n restricciones"
    by (simp_all add: instancia_valida_def)
  have s: "1 \<le> raiz n" using n by (rule raiz_pos)
  have "set (variables_de c) \<subseteq> nombre ` set (celdas n)" if "c \<in> set (cotas n)" for c
    using that by (auto simp: cotas_def)
  moreover have "set (variables_de c) \<subseteq> nombre ` set (celdas n)" if "c \<in> set (filas n)" for c
  proof -
    from that obtain f where f: "f \<in> set (rango n)"
      and c: "c = Distinct (map (\<lambda>columna. nombre (f, columna)) (rango n))
            \<or> c = Distinct (map (\<lambda>columna. nombre (columna, f)) (rango n))"
      by (auto simp: filas_def)
    have "(f, x) \<in> set (celdas n)" "(x, f) \<in> set (celdas n)" if "x \<in> set (rango n)" for x
      using that f by (simp_all add: celdas_def)
    with c show ?thesis by auto
  qed
  moreover have "set (variables_de c) \<subseteq> nombre ` set (celdas n)"
    if "c \<in> set (bloques n (raiz n))" for c
  proof -
    from that obtain fi ci where "fi \<in> set (inicios n (raiz n))" "ci \<in> set (inicios n (raiz n))"
      and c: "c = Distinct (map nombre (celdas_bloque (raiz n) fi ci))"
      by (auto simp: bloques_def)
    with celdas_bloque_en_tablero [OF s d] show ?thesis by auto
  qed
  moreover have "set (variables_de c) \<subseteq> nombre ` set (celdas n)"
    if "c \<in> set (jaulas restricciones)" for c
  proof -
    from that obtain jl where jl: "jl \<in> set restricciones"
      and c: "c = SumEq (snd jl) (fst jl) \<or> c = Distinct (snd jl)"
      by (auto simp: jaulas_def)
    from j jl have "en_tablero n jl" by (simp add: jaulas_validas_def list_all_iff)
    then have "set (map (\<lambda>fc. (fst fc - 1, snd fc - 1)) (snd jl)) \<subseteq> set (celdas n)"
      by (simp only: claves_jaula)
    then have "set (map nombre (map (\<lambda>fc. (fst fc - 1, snd fc - 1)) (snd jl)))
               \<subseteq> nombre ` set (celdas n)" by auto
    then have "set (snd jl) \<subseteq> nombre ` set (celdas n)" by (simp only: nombre_clave)
    with c show ?thesis by auto
  qed
  ultimately have "\<forall>c \<in> set (base n @ jaulas restricciones).
      set (variables_de c) \<subseteq> nombre ` set (celdas n)"
    unfolding base_def by (metis Un_iff set_append)
  then show ?thesis
    unfolding sobre_tablero_def by (simp add: base_def)
qed

lemma resolver_enumera:
  assumes "solucionador_z3 check" "instancia_valida n restricciones"
  shows "\<exists>ms. resolver_sudoku_killer check restricciones n =
            Some (Inr \<lparr>restr = (base n @ jaulas restricciones) @ map (clausula n) ms,
                       encontradas = length ms,
                       salida = map (cuadricula n) ms\<rparr>)
        \<and> distinct (map (cuadricula n) ms)
        \<and> cuadricula n ` set ms = soluciones n (base n @ jaulas restricciones)
        \<and> (\<forall>m \<in> set ms. satisface_todas m (base n @ jaulas restricciones))"
  using bucle_enumera [OF assms(1),
      of n "\<lparr>restr = base n @ jaulas restricciones, encontradas = 0, salida = []\<rparr>"]
    sobre_tablero_instancia [OF assms(2)]
  by (simp add: resolver_sudoku_killer_def construir_ok [OF assms(2)])

lemma resolver_error:
  assumes "\<not> instancia_valida n restricciones"
  shows "\<exists>e. construir restricciones n = Inl e
           \<and> resolver_sudoku_killer check restricciones n = Some (Inl e)"
proof (cases "construir restricciones n")
  case (Inl e)
  then show ?thesis by (simp add: resolver_sudoku_killer_def)
next
  case (Inr r)
  from construir_Inr [OF this] assms show ?thesis by simp
qed

lemma resolver_termina:
  assumes "solucionador_z3 check"
  shows "\<exists>r. resolver_sudoku_killer check restricciones n = Some r"
proof (cases "instancia_valida n restricciones")
  case True
  from resolver_enumera [OF assms True] show ?thesis by blast
next
  case False
  from resolver_error [OF False] show ?thesis by blast
qed

lemma resolver_Inr:
  assumes "solucionador_z3 check" "resolver_sudoku_killer check restricciones n = Some (Inr st)"
  shows "instancia_valida n restricciones"
proof (rule ccontr)
  assume "\<not> instancia_valida n restricciones"
  from resolver_error [OF this, of check] assms(2) show False by auto
qed

lemma cuenta_soluciones:
  assumes "distinct (map (cuadricula n) ms)" "cuadricula n ` set ms = S"
  shows "length ms = card S"
proof -
  have "length ms = length (map (cuadricula n) ms)" by simp
  also have "\<dots> = card (set (map (cuadricula n) ms))"
    using assms(1) by (simp only: distinct_card)
  finally show ?thesis using assms(2) by simp
qed

section \<open>The reference solver meets the assumption on Z3\<close>

lemma satisface_cong:
  assumes "\<And>v. v \<in> set (variables_de c) \<Longrightarrow> m v = m' v"
  shows "satisface m c = satisface m' c"
proof (cases c)
  case (Ge v k)
  with assms show ?thesis by simp
next
  case (Le v k)
  with assms show ?thesis by simp
next
  case (Distinct vs)
  with assms have eq: "map m vs = map m' vs" by simp
  show ?thesis by (simp only: Distinct satisface.simps eq)
next
  case (SumEq vs t)
  with assms have eq: "map m vs = map m' vs" by simp
  show ?thesis by (simp only: SumEq satisface.simps eq)
next
  case (OrNeq ps)
  with assms have "\<And>p. p \<in> set ps \<Longrightarrow> m (fst p) = m' (fst p)" by simp
  with OrNeq show ?thesis by (auto simp: list_ex_iff)
qed

lemma satisface_todas_cong:
  assumes "\<And>v. v \<in> set (concat (map variables_de cs)) \<Longrightarrow> m v = m' v"
  shows "satisface_todas m cs = satisface_todas m' cs"
proof -
  have "satisface m c = satisface m' c" if "c \<in> set cs" for c
    by (rule satisface_cong) (use assms that in auto)
  then show ?thesis by (auto simp: satisface_todas_def list_all_iff)
qed

lemma asignaciones_mem:
  "(\<And>vd. vd \<in> set doms \<Longrightarrow> m (fst vd) \<in> set (snd vd)) \<Longrightarrow>
   map (\<lambda>vd. (fst vd, m (fst vd))) doms \<in> set (asignaciones doms)"
  by (induction doms) auto

lemma modelo_de_map:
  "v \<in> set vs \<Longrightarrow> modelo_de (map (\<lambda>v. (v, m v)) vs) v = m v"
  by (induction vs) (auto simp: modelo_de_def)

lemma cotas_inferiores_mem: "k \<in> set (cotas_inferiores cs v) \<longleftrightarrow> Ge v k \<in> set cs"
proof (induction cs)
  case Nil
  show ?case by (simp add: cotas_inferiores_def)
next
  case (Cons c cs)
  then show ?case by (cases c) (auto simp: cotas_inferiores_def)
qed

lemma cotas_superiores_mem: "k \<in> set (cotas_superiores cs v) \<longleftrightarrow> Le v k \<in> set cs"
proof (induction cs)
  case Nil
  show ?case by (simp add: cotas_superiores_def)
next
  case (Cons c cs)
  then show ?case by (cases c) (auto simp: cotas_superiores_def)
qed

lemma acotada_iff: "acotada cs v \<longleftrightarrow> (\<exists>lo. Ge v lo \<in> set cs) \<and> (\<exists>hi. Le v hi \<in> set cs)"
proof -
  have "(\<exists>c \<in> set cs. case c of Ge u k \<Rightarrow> u = v | _ \<Rightarrow> False) \<longleftrightarrow> (\<exists>lo. Ge v lo \<in> set cs)"
  proof
    assume "\<exists>c \<in> set cs. case c of Ge u k \<Rightarrow> u = v | _ \<Rightarrow> False"
    then obtain c where c: "c \<in> set cs" "case c of Ge u k \<Rightarrow> u = v | _ \<Rightarrow> False" ..
    then show "\<exists>lo. Ge v lo \<in> set cs" by (cases c rule: restriccion.exhaust) auto
  next
    assume "\<exists>lo. Ge v lo \<in> set cs"
    then obtain lo where "Ge v lo \<in> set cs" ..
    then show "\<exists>c \<in> set cs. case c of Ge u k \<Rightarrow> u = v | _ \<Rightarrow> False"
      by (rule rev_bexI) simp
  qed
  moreover
  have "(\<exists>c \<in> set cs. case c of Le u k \<Rightarrow> u = v | _ \<Rightarrow> False) \<longleftrightarrow> (\<exists>hi. Le v hi \<in> set cs)"
  proof
    assume "\<exists>c \<in> set cs. case c of Le u k \<Rightarrow> u = v | _ \<Rightarrow> False"
    then obtain c where c: "c \<in> set cs" "case c of Le u k \<Rightarrow> u = v | _ \<Rightarrow> False" ..
    then show "\<exists>hi. Le v hi \<in> set cs" by (cases c rule: restriccion.exhaust) auto
  next
    assume "\<exists>hi. Le v hi \<in> set cs"
    then obtain hi where "Le v hi \<in> set cs" ..
    then show "\<exists>c \<in> set cs. case c of Le u k \<Rightarrow> u = v | _ \<Rightarrow> False"
      by (rule rev_bexI) simp
  qed
  ultimately show ?thesis by (simp only: acotada_def list_ex_iff)
qed

lemma dominio_mem:
  assumes "acotada cs v" "satisface_todas m cs"
  shows "m v \<in> set (dominio cs v)"
proof -
  from assms(1) obtain lo hi where "Ge v lo \<in> set cs" "Le v hi \<in> set cs"
    unfolding acotada_iff by blast
  then have "lo \<in> set (cotas_inferiores cs v)" "hi \<in> set (cotas_superiores cs v)"
    by (simp_all only: cotas_inferiores_mem cotas_superiores_mem)
  then obtain lo' ls hi' hs where
    l: "cotas_inferiores cs v = lo' # ls" and h: "cotas_superiores cs v = hi' # hs"
    by (cases "cotas_inferiores cs v"; cases "cotas_superiores cs v") auto
  then have "Ge v lo' \<in> set cs" "Le v hi' \<in> set cs"
    using cotas_inferiores_mem [of lo' cs v] cotas_superiores_mem [of hi' cs v] by simp_all
  with assms(2) have "satisface m (Ge v lo')" "satisface m (Le v hi')"
    by (auto simp: satisface_todas_def list_all_iff)
  then show ?thesis by (simp add: dominio_def l h)
qed

lemma fuerza_bruta_z3: "solucionador_z3 fuerza_bruta"
  unfolding solucionador_z3_def
proof (intro allI impI)
  fix cs assume fd: "dominio_finito cs"
  let ?vs = "remdups (concat (map variables_de cs))"
  let ?doms = "map (\<lambda>v. (v, dominio cs v)) ?vs"
  let ?P = "\<lambda>a. satisface_todas (modelo_de a) cs"
  show "case fuerza_bruta cs of None \<Rightarrow> \<forall>m. \<not> satisface_todas m cs
        | Some m \<Rightarrow> satisface_todas m cs"
  proof (cases "find ?P (asignaciones ?doms)")
    case None
    have "\<not> satisface_todas m cs" for m
    proof
      assume m: "satisface_todas m cs"
      have "m (fst vd) \<in> set (snd vd)" if "vd \<in> set ?doms" for vd
      proof -
        from that obtain v where v: "v \<in> set (concat (map variables_de cs))"
          and vd: "vd = (v, dominio cs v)" by auto
        from fd v have "acotada cs v" unfolding dominio_finito_def list_all_iff by blast
        from dominio_mem [OF this m] vd show ?thesis by simp
      qed
      then have "map (\<lambda>vd. (fst vd, m (fst vd))) ?doms \<in> set (asignaciones ?doms)"
        by (rule asignaciones_mem)
      then have mem: "map (\<lambda>v. (v, m v)) ?vs \<in> set (asignaciones ?doms)"
        by (simp add: o_def)
      have "satisface_todas (modelo_de (map (\<lambda>v. (v, m v)) ?vs)) cs = satisface_todas m cs"
        by (rule satisface_todas_cong) (simp add: modelo_de_map)
      with m have "?P (map (\<lambda>v. (v, m v)) ?vs)" by simp
      with mem None show False by (auto simp: find_None_iff)
    qed
    with None show ?thesis by (simp add: fuerza_bruta_def)
  next
    case (Some a)
    then have "?P a" by (auto simp: find_Some_iff)
    with Some show ?thesis by (simp add: fuerza_bruta_def)
  qed
qed

section \<open>Boards and models\<close>

lemma rango_nth: "i \<in> set (rango n) \<Longrightarrow> rango n ! nat i = i"
  by (simp add: rango_def nth_upto)

lemma rango_length: "length (rango n) = nat n"
  by (simp add: rango_def)

lemma rango_nat_lt: "i \<in> set (rango n) \<Longrightarrow> nat i < length (rango n)"
  by (simp add: rango_def)

lemma cuadricula_fila:
  "f \<in> set (rango n) \<Longrightarrow>
   fila_de (cuadricula n m) f = map (\<lambda>c. m (nombre (f, c))) (rango n)"
  by (simp add: fila_de_def cuadricula_def rango_nat_lt rango_nth)

lemma cuadricula_nth:
  "f \<in> set (rango n) \<Longrightarrow> c \<in> set (rango n) \<Longrightarrow>
   cuadricula n m ! nat f ! nat c = m (nombre (f, c))"
  using cuadricula_fila [of f n m] by (simp add: fila_de_def rango_nat_lt rango_nth)

lemma cuadricula_columna:
  assumes "c \<in> set (rango n)"
  shows "columna_de (cuadricula n m) c = map (\<lambda>f. m (nombre (f, c))) (rango n)"
proof -
  have "(map (\<lambda>columna. m (nombre (f, columna))) (rango n)) ! nat c = m (nombre (f, c))" for f
    using assms by (simp add: rango_nat_lt rango_nth)
  then show ?thesis by (simp add: columna_de_def cuadricula_def o_def)
qed

lemma cuadricula_bloque:
  assumes "set (celdas_bloque sub fi ci) \<subseteq> set (celdas n)"
  shows "bloque_de (cuadricula n m) sub fi ci = map m (map nombre (celdas_bloque sub fi ci))"
proof -
  have "cuadricula n m ! nat (fi + fst rc) ! nat (ci + snd rc) = m (nombre (fi + fst rc, ci + snd rc))"
    if "rc \<in> set (List.product (rango sub) (rango sub))" for rc
  proof -
    from that assms have "(fi + fst rc, ci + snd rc) \<in> set (celdas n)"
      by (auto simp: celdas_bloque_def)
    then have "fi + fst rc \<in> set (rango n)" "ci + snd rc \<in> set (rango n)"
      by (simp_all add: celdas_def)
    then show ?thesis by (rule cuadricula_nth)
  qed
  then show ?thesis by (simp add: bloque_de_def celdas_bloque_def o_def)
qed

lemma cuadricula_valor:
  assumes "1 \<le> fst fc" "fst fc \<le> n" "1 \<le> snd fc" "snd fc \<le> n"
  shows "valor (cuadricula n m) fc = m fc"
proof -
  have "fst fc - 1 \<in> set (rango n)" "snd fc - 1 \<in> set (rango n)"
    using assms by (simp_all add: rango_iff)
  from cuadricula_nth [OF this] show ?thesis by (simp add: valor_def nombre_def)
qed

lemma completa_intro:
  assumes "distinct xs" "\<And>x. x \<in> set xs \<Longrightarrow> 1 \<le> x \<and> x \<le> n" "length xs = nat n"
  shows "completa n xs"
proof -
  have sub: "set xs \<subseteq> {1..n}" using assms(2) by auto
  have "card (set xs) = nat n" using assms(1,3) by (simp add: distinct_card)
  then have "card (set xs) = card {1..n}" by simp
  with sub have "set xs = {1..n}" by (simp add: card_subset_eq)
  with assms(1) show ?thesis by (simp add: completa_def)
qed

lemma satisface_base:
  assumes "satisface_todas m (base n @ cs)"
  shows "\<And>k. k \<in> set (celdas n) \<Longrightarrow> 1 \<le> m (nombre k) \<and> m (nombre k) \<le> n"
    and "\<And>f. f \<in> set (rango n) \<Longrightarrow> distinct (map (\<lambda>c. m (nombre (f, c))) (rango n))"
    and "\<And>c. c \<in> set (rango n) \<Longrightarrow> distinct (map (\<lambda>f. m (nombre (f, c))) (rango n))"
    and "\<And>fi ci. fi \<in> set (inicios n (raiz n)) \<Longrightarrow> ci \<in> set (inicios n (raiz n)) \<Longrightarrow>
           distinct (map m (map nombre (celdas_bloque (raiz n) fi ci)))"
proof -
  have all: "satisface m c" if "c \<in> set (cotas n) \<or> c \<in> set (filas n) \<or> c \<in> set (bloques n (raiz n))" for c
    using assms that by (auto simp: satisface_todas_def base_def list_all_iff)
  show "1 \<le> m (nombre k) \<and> m (nombre k) \<le> n" if "k \<in> set (celdas n)" for k
  proof -
    have "Ge (nombre k) 1 \<in> set (cotas n)" "Le (nombre k) n \<in> set (cotas n)"
      using that by (auto simp: cotas_def)
    then have "satisface m (Ge (nombre k) 1)" "satisface m (Le (nombre k) n)"
      using all by blast+
    then show ?thesis by simp
  qed
  show "distinct (map (\<lambda>c. m (nombre (f, c))) (rango n))" if "f \<in> set (rango n)" for f
  proof -
    have "Distinct (map (\<lambda>c. nombre (f, c)) (rango n)) \<in> set (filas n)"
      using that by (auto simp: filas_def)
    then have "satisface m (Distinct (map (\<lambda>c. nombre (f, c)) (rango n)))" using all by blast
    then show ?thesis by (simp add: o_def)
  qed
  show "distinct (map (\<lambda>f. m (nombre (f, c))) (rango n))" if "c \<in> set (rango n)" for c
  proof -
    have "Distinct (map (\<lambda>f. nombre (f, c)) (rango n)) \<in> set (filas n)"
      using that by (auto simp: filas_def)
    then have "satisface m (Distinct (map (\<lambda>f. nombre (f, c)) (rango n)))" using all by blast
    then show ?thesis by (simp add: o_def)
  qed
  show "distinct (map m (map nombre (celdas_bloque (raiz n) fi ci)))"
    if "fi \<in> set (inicios n (raiz n))" "ci \<in> set (inicios n (raiz n))" for fi ci
  proof -
    have "Distinct (map nombre (celdas_bloque (raiz n) fi ci)) \<in> set (bloques n (raiz n))"
      using that by (auto simp: bloques_def)
    then have "satisface m (Distinct (map nombre (celdas_bloque (raiz n) fi ci)))"
      using all by blast
    then show ?thesis by simp
  qed
qed

lemma satisface_jaula:
  assumes "satisface_todas m (cs @ jaulas restricciones)" "j \<in> set restricciones"
  shows "sum_list (map m (snd j)) = fst j \<and> distinct (map m (snd j))"
proof -
  have "SumEq (snd j) (fst j) \<in> set (jaulas restricciones)"
       "Distinct (snd j) \<in> set (jaulas restricciones)"
    using assms(2) by (auto simp: jaulas_def)
  moreover have "\<forall>c \<in> set (jaulas restricciones). satisface m c"
    using assms(1) by (simp add: satisface_todas_def list_all_iff)
  ultimately have "satisface m (SumEq (snd j) (fst j))" "satisface m (Distinct (snd j))"
    by blast+
  then show ?thesis by simp
qed

lemma emitida:
  assumes "solucionador_z3 check"
    "resolver_sudoku_killer check restricciones n = Some (Inr st)"
  shows "instancia_valida n restricciones"
    and "\<exists>ms. st = \<lparr>restr = (base n @ jaulas restricciones) @ map (clausula n) ms,
                     encontradas = length ms, salida = map (cuadricula n) ms\<rparr>
          \<and> distinct (map (cuadricula n) ms)
          \<and> cuadricula n ` set ms = soluciones n (base n @ jaulas restricciones)
          \<and> (\<forall>m \<in> set ms. satisface_todas m (base n @ jaulas restricciones))"
proof -
  show v: "instancia_valida n restricciones" using assms by (rule resolver_Inr)
  from resolver_enumera [OF assms(1) v] assms(2)
  show "\<exists>ms. st = \<lparr>restr = (base n @ jaulas restricciones) @ map (clausula n) ms,
                     encontradas = length ms, salida = map (cuadricula n) ms\<rparr>
          \<and> distinct (map (cuadricula n) ms)
          \<and> cuadricula n ` set ms = soluciones n (base n @ jaulas restricciones)
          \<and> (\<forall>m \<in> set ms. satisface_todas m (base n @ jaulas restricciones))"
    by auto
qed

text \<open>
  Claim C1 says that emitting a solution adds no blocking constraint and leaves the set
  of constraints as it was when the search began. The program does the opposite, on
  purpose (lines 112 to 117): each emitted solution appends one clause that excludes it.
  What holds: there is a list \<open>ms\<close> of models of the assertions built before the
  search, one for each solution emitted, such that the boards printed are the boards of
  these models, in order, and the solver ends with the assertions built before the
  search, unchanged and in place, followed by the blocking clause of each of these
  models, in the same order, and by nothing else. The blocking clause of a model
  (\<open>clausula\<close>, which is what \<open>bloqueo\<close> builds from the dictionary of the program)
  is satisfied exactly by the models whose board differs from the board of that model
  in some cell.
\<close>

theorem C1_una_clausula_por_solucion:
  assumes "solucionador_z3 check" "map_sum id snd (construir restricciones n) = Inr s"
  shows "\<exists>st ms. resolver_sudoku_killer check restricciones n = Some (Inr st)
           \<and> restr st = s @ map (clausula n) ms
           \<and> salida st = map (cuadricula n) ms
           \<and> encontradas st = length ms
           \<and> (\<forall>m \<in> set ms. satisface_todas m s)
           \<and> (\<forall>m m'. satisface m' (clausula n m) = (cuadricula n m' \<noteq> cuadricula n m))
           \<and> (\<forall>vt m. map_sum id fst (construir restricciones n) = Inr vt \<longrightarrow>
                  bloqueo vt n m = Inr (clausula n m)
                  \<and> evaluar_tablero vt n m = Inr (cuadricula n m))"
proof -
  from assms(2) obtain vt where c: "construir restricciones n = Inr (vt, s)"
    by (cases "construir restricciones n") auto
  then have v: "instancia_valida n restricciones" by (rule construir_Inr)
  from construir_ok [OF v] c have s: "s = base n @ jaulas restricciones"
    and vt: "vt = dicc_tablero n" by simp_all
  from resolver_enumera [OF assms(1) v] obtain ms where
    r: "resolver_sudoku_killer check restricciones n =
       Some (Inr \<lparr>restr = s @ map (clausula n) ms, encontradas = length ms,
                  salida = map (cuadricula n) ms\<rparr>)"
    and a: "\<forall>m \<in> set ms. satisface_todas m s"
    unfolding s by blast
  have k: "\<forall>m m'. satisface m' (clausula n m) = (cuadricula n m' \<noteq> cuadricula n m)"
    by (simp add: satisface_clausula)
  have b: "\<forall>vt' m. map_sum id fst (construir restricciones n) = Inr vt' \<longrightarrow>
             bloqueo vt' n m = Inr (clausula n m)
             \<and> evaluar_tablero vt' n m = Inr (cuadricula n m)"
    by (simp add: c vt bloqueo_eq evaluar_tablero_eq)
  let ?st = "\<lparr>restr = s @ map (clausula n) ms, encontradas = length ms,
                  salida = map (cuadricula n) ms\<rparr>"
  have "resolver_sudoku_killer check restricciones n = Some (Inr ?st)
        \<and> restr ?st = s @ map (clausula n) ms
        \<and> salida ?st = map (cuadricula n) ms
        \<and> encontradas ?st = length ms"
    using r by simp
  with a k b show ?thesis by blast
qed

text \<open>The statement for C1 on the 1 x 1 board without cages, with the run computed.\<close>

theorem C1_testigo:
  "solucionador_z3 fuerza_bruta
   \<and> map_sum id snd (construir [] 1) =
       Inr [Ge (1, 1) 1, Le (1, 1) 1, Distinct [(1, 1)], Distinct [(1, 1)], Distinct [(1, 1)]]
   \<and> (\<exists>st ms. resolver_sudoku_killer fuerza_bruta [] 1 = Some (Inr st)
          \<and> restr st =
              [Ge (1, 1) 1, Le (1, 1) 1, Distinct [(1, 1)], Distinct [(1, 1)], Distinct [(1, 1)]]
              @ map (clausula 1) ms
          \<and> salida st = map (cuadricula 1) ms
          \<and> encontradas st = length ms)
   \<and> map_option (map_sum id (\<lambda>st. (restr st, encontradas st, salida st)))
         (resolver_sudoku_killer fuerza_bruta [] 1) =
       Some (Inr ([Ge (1, 1) 1, Le (1, 1) 1, Distinct [(1, 1)], Distinct [(1, 1)],
                   Distinct [(1, 1)], OrNeq [((1, 1), 1)]], 1, [[[1]]]))"
proof -
  have a: "solucionador_z3 fuerza_bruta" by (rule fuerza_bruta_z3)
  have b: "map_sum id snd (construir [] 1) =
       Inr [Ge (1, 1) 1, Le (1, 1) 1, Distinct [(1, 1)], Distinct [(1, 1)], Distinct [(1, 1)]]"
    by code_simp
  have c: "map_option (map_sum id (\<lambda>st. (restr st, encontradas st, salida st)))
         (resolver_sudoku_killer fuerza_bruta [] 1) =
       Some (Inr ([Ge (1, 1) 1, Le (1, 1) 1, Distinct [(1, 1)], Distinct [(1, 1)],
                   Distinct [(1, 1)], OrNeq [((1, 1), 1)]], 1, [[[1]]]))"
    by code_simp
  from C1_una_clausula_por_solucion [OF a b] a b c show ?thesis by blast
qed

text \<open>
  Claim C1 as stated fails on the 1 x 1 board without cages: the construction asserts
  five formulas, and after the one solution is emitted the solver holds a sixth, the
  clause that excludes that solution.
\<close>

theorem C1_contraejemplo:
  "map_sum id snd (construir [] 1) =
     Inr [Ge (1, 1) 1, Le (1, 1) 1, Distinct [(1, 1)], Distinct [(1, 1)], Distinct [(1, 1)]]
   \<and> resolver_sudoku_killer fuerza_bruta [] 1 =
     Some (Inr \<lparr>restr = [Ge (1, 1) 1, Le (1, 1) 1, Distinct [(1, 1)], Distinct [(1, 1)],
                          Distinct [(1, 1)], OrNeq [((1, 1), 1)]],
                encontradas = 1, salida = [[[1]]]\<rparr>)"
  by code_simp

text \<open>
  Claim C2: no board is emitted twice. Any two boards emitted at different positions of
  the output differ in the value of at least one cell.
\<close>

theorem C2_sin_repeticion:
  assumes "solucionador_z3 check"
    "resolver_sudoku_killer check restricciones n = Some (Inr st)"
  shows "distinct (salida st)
       \<and> (\<forall>i j. i < j \<and> j < length (salida st) \<longrightarrow>
            (\<exists>f \<in> set (rango n). \<exists>c \<in> set (rango n).
               salida st ! i ! nat f ! nat c \<noteq> salida st ! j ! nat f ! nat c))"
proof -
  from emitida(2) [OF assms] obtain ms where
    st: "salida st = map (cuadricula n) ms" and d: "distinct (map (cuadricula n) ms)"
    by auto
  have "\<exists>f \<in> set (rango n). \<exists>c \<in> set (rango n).
          salida st ! i ! nat f ! nat c \<noteq> salida st ! j ! nat f ! nat c"
    if "i < j" "j < length (salida st)" for i j
  proof -
    from that st have ij: "i < length ms" "j < length ms" "i \<noteq> j" by simp_all
    with d have "cuadricula n (ms ! i) \<noteq> cuadricula n (ms ! j)"
      by (simp add: distinct_conv_nth)
    then obtain k where k: "k \<in> set (celdas n)" "(ms ! i) (nombre k) \<noteq> (ms ! j) (nombre k)"
      unfolding cuadricula_eq_iff by blast
    then have fc: "fst k \<in> set (rango n)" "snd k \<in> set (rango n)"
      by (simp_all add: celdas_iff rango_iff)
    from k(2) have "cuadricula n (ms ! i) ! nat (fst k) ! nat (snd k)
                 \<noteq> cuadricula n (ms ! j) ! nat (fst k) ! nat (snd k)"
      by (simp add: cuadricula_nth [OF fc])
    with fc ij show ?thesis unfolding st by (auto simp: nth_map)
  qed
  with st d show ?thesis by simp
qed

text \<open>The statement for C2 on the 2 x 2 board without cages, which has two solutions.\<close>

theorem C2_testigo:
  "solucionador_z3 fuerza_bruta
   \<and> resolver_sudoku_killer fuerza_bruta [] 2 =
       Some (Inr \<lparr>restr =
          [Ge (1, 1) 1, Le (1, 1) 2, Ge (1, 2) 1, Le (1, 2) 2,
           Ge (2, 1) 1, Le (2, 1) 2, Ge (2, 2) 1, Le (2, 2) 2,
           Distinct [(1, 1), (1, 2)], Distinct [(1, 1), (2, 1)],
           Distinct [(2, 1), (2, 2)], Distinct [(1, 2), (2, 2)],
           Distinct [(1, 1)], Distinct [(1, 2)], Distinct [(2, 1)], Distinct [(2, 2)],
           OrNeq [((1, 1), 1), ((1, 2), 2), ((2, 1), 2), ((2, 2), 1)],
           OrNeq [((1, 1), 2), ((1, 2), 1), ((2, 1), 1), ((2, 2), 2)]],
          encontradas = 2, salida = [[[1, 2], [2, 1]], [[2, 1], [1, 2]]]\<rparr>)
   \<and> distinct [[[1, 2], [2, 1]], [[2, 1], [1, 2 :: int]]]"
proof -
  have a: "solucionador_z3 fuerza_bruta" by (rule fuerza_bruta_z3)
  have b: "resolver_sudoku_killer fuerza_bruta [] 2 =
       Some (Inr \<lparr>restr =
          [Ge (1, 1) 1, Le (1, 1) 2, Ge (1, 2) 1, Le (1, 2) 2,
           Ge (2, 1) 1, Le (2, 1) 2, Ge (2, 2) 1, Le (2, 2) 2,
           Distinct [(1, 1), (1, 2)], Distinct [(1, 1), (2, 1)],
           Distinct [(2, 1), (2, 2)], Distinct [(1, 2), (2, 2)],
           Distinct [(1, 1)], Distinct [(1, 2)], Distinct [(2, 1)], Distinct [(2, 2)],
           OrNeq [((1, 1), 1), ((1, 2), 2), ((2, 1), 2), ((2, 2), 1)],
           OrNeq [((1, 1), 2), ((1, 2), 1), ((2, 1), 1), ((2, 2), 2)]],
          encontradas = 2, salida = [[[1, 2], [2, 1]], [[2, 1], [1, 2]]]\<rparr>)"
    by code_simp
  from C2_sin_repeticion [OF a b] a b show ?thesis by simp
qed

lemma emitida_modelo:
  assumes "solucionador_z3 check"
    "resolver_sudoku_killer check restricciones n = Some (Inr st)"
    "t \<in> set (salida st)"
  shows "\<exists>m. instancia_valida n restricciones \<and> t = cuadricula n m
           \<and> satisface_todas m (base n @ jaulas restricciones)"
proof -
  from emitida(2) [OF assms(1,2)] obtain ms where
    st: "salida st = map (cuadricula n) ms"
    and a: "\<forall>m \<in> set ms. satisface_todas m (base n @ jaulas restricciones)"
    by auto
  from assms(3) obtain m where "m \<in> set ms" "t = cuadricula n m"
    unfolding st by auto
  with a emitida(1) [OF assms(1,2)] show ?thesis by blast
qed

text \<open>
  Claim C3: in every emitted board each row and each column holds every value of
  \<open>1..n\<close> exactly once, and so does each sub-block of side \<open>sqrt n\<close>; a board has such
  sub-blocks when \<open>n\<close> is a perfect square (\<open>raiz n * raiz n = n\<close>).
\<close>

theorem C3_filas_columnas_bloques:
  assumes "solucionador_z3 check"
    "resolver_sudoku_killer check restricciones n = Some (Inr st)"
    "t \<in> set (salida st)"
  shows "(\<forall>i \<in> set (rango n). completa n (fila_de t i) \<and> completa n (columna_de t i))
       \<and> (raiz n * raiz n = n \<longrightarrow>
            (\<forall>fi \<in> set (inicios n (raiz n)). \<forall>ci \<in> set (inicios n (raiz n)).
               completa n (bloque_de t (raiz n) fi ci)))"
proof -
  from emitida_modelo [OF assms(1,2,3)] obtain m where
    v: "instancia_valida n restricciones" and t: "t = cuadricula n m"
    and m: "satisface_todas m (base n @ jaulas restricciones)"
    by blast
  note b = satisface_base [OF m]
  from v have n: "1 \<le> n" and d: "raiz n dvd n" by (simp_all add: instancia_valida_def)
  have filas: "completa n (fila_de t i)" if "i \<in> set (rango n)" for i
    unfolding t cuadricula_fila [OF that]
  proof (rule completa_intro)
    show "distinct (map (\<lambda>c. m (nombre (i, c))) (rango n))" using that by (rule b(2))
    show "1 \<le> x \<and> x \<le> n" if "x \<in> set (map (\<lambda>c. m (nombre (i, c))) (rango n))" for x
      using that \<open>i \<in> set (rango n)\<close> b(1) by (auto simp: celdas_def)
    show "length (map (\<lambda>c. m (nombre (i, c))) (rango n)) = nat n" by (simp add: rango_length)
  qed
  have columnas: "completa n (columna_de t i)" if "i \<in> set (rango n)" for i
    unfolding t cuadricula_columna [OF that]
  proof (rule completa_intro)
    show "distinct (map (\<lambda>f. m (nombre (f, i))) (rango n))" using that by (rule b(3))
    show "1 \<le> x \<and> x \<le> n" if "x \<in> set (map (\<lambda>f. m (nombre (f, i))) (rango n))" for x
      using that \<open>i \<in> set (rango n)\<close> b(1) by (auto simp: celdas_def)
    show "length (map (\<lambda>f. m (nombre (f, i))) (rango n)) = nat n" by (simp add: rango_length)
  qed
  have bloques: "completa n (bloque_de t (raiz n) fi ci)"
    if sq: "raiz n * raiz n = n"
      and fi: "fi \<in> set (inicios n (raiz n))" and ci: "ci \<in> set (inicios n (raiz n))"
    for fi ci
  proof -
    have sub: "set (celdas_bloque (raiz n) fi ci) \<subseteq> set (celdas n)"
      using raiz_pos [OF n] d fi ci by (rule celdas_bloque_en_tablero)
    show ?thesis
      unfolding t cuadricula_bloque [OF sub]
    proof (rule completa_intro)
      show "distinct (map m (map nombre (celdas_bloque (raiz n) fi ci)))"
        using fi ci by (rule b(4))
      show "1 \<le> x \<and> x \<le> n"
        if "x \<in> set (map m (map nombre (celdas_bloque (raiz n) fi ci)))" for x
        using that sub b(1) by auto
      have "length (celdas_bloque (raiz n) fi ci) = nat (raiz n) * nat (raiz n)"
        by (simp add: celdas_bloque_def rango_length)
      also have "\<dots> = nat (raiz n * raiz n)"
        using raiz_pos [OF n] by (simp add: nat_mult_distrib)
      finally show "length (map m (map nombre (celdas_bloque (raiz n) fi ci))) = nat n"
        by (simp add: sq)
    qed
  qed
  from filas columnas bloques show ?thesis by blast
qed

text \<open>
  Claim C4: in every emitted board, the values of the cells of each cage of the input
  are pairwise distinct and add up to the target of the cage.
\<close>

theorem C4_jaulas:
  assumes "solucionador_z3 check"
    "resolver_sudoku_killer check restricciones n = Some (Inr st)"
    "t \<in> set (salida st)" "j \<in> set restricciones"
  shows "distinct (map (valor t) (snd j)) \<and> sum_list (map (valor t) (snd j)) = fst j"
proof -
  from emitida_modelo [OF assms(1,2,3)] obtain m where
    v: "instancia_valida n restricciones" and t: "t = cuadricula n m"
    and m: "satisface_todas m (base n @ jaulas restricciones)"
    by blast
  from v assms(4) have "en_tablero n j"
    by (simp add: instancia_valida_def jaulas_validas_def list_all_iff)
  then have "valor t fc = m fc" if "fc \<in> set (snd j)" for fc
    unfolding t using that by (intro cuadricula_valor) (auto simp: en_tablero_def list_all_iff)
  then have eq: "map (valor t) (snd j) = map m (snd j)" by simp
  from satisface_jaula [OF m assms(4)] show ?thesis unfolding eq by blast
qed

text \<open>
  Claim C5: the program always returns, with the error of the construction or with the
  final state of the loop, and in the second case every model of the constructed
  assertions has its board among the boards emitted.
\<close>

theorem C5_termina_y_enumera_todo:
  assumes "solucionador_z3 check"
  shows "\<exists>r. resolver_sudoku_killer check restricciones n = Some r
           \<and> (case construir restricciones n of
                 Inl e \<Rightarrow> r = Inl e
               | Inr (vt, s) \<Rightarrow>
                   (\<exists>st. r = Inr st
                      \<and> (\<forall>m. satisface_todas m s \<longrightarrow>
                            (\<exists>t. evaluar_tablero vt n m = Inr t \<and> t \<in> set (salida st)))))"
proof (cases "instancia_valida n restricciones")
  case True
  from resolver_enumera [OF assms True] obtain ms where
    r: "resolver_sudoku_killer check restricciones n =
          Some (Inr \<lparr>restr = (base n @ jaulas restricciones) @ map (clausula n) ms,
                     encontradas = length ms, salida = map (cuadricula n) ms\<rparr>)"
    and s: "cuadricula n ` set ms = soluciones n (base n @ jaulas restricciones)"
    by blast
  have "cuadricula n m \<in> set (map (cuadricula n) ms)"
    if "satisface_todas m (base n @ jaulas restricciones)" for m
    using that s by (auto simp: soluciones_def)
  with r show ?thesis
    by (simp add: construir_ok [OF True] evaluar_tablero_eq)
next
  case False
  from resolver_error [OF False, of check] show ?thesis by auto
qed

text \<open>
  Claim C6: with a cage of target 0 over one or more cells, no solution is enumerated:
  the program returns, and if it returns a final state, that state counts zero
  solutions and has printed no board.
\<close>

theorem C6_jaula_de_suma_cero:
  assumes "solucionador_z3 check" "(0, celdas_grupo) \<in> set restricciones" "celdas_grupo \<noteq> []"
  shows "\<exists>r. resolver_sudoku_killer check restricciones n = Some r
           \<and> (\<forall>st. r = Inr st \<longrightarrow> encontradas st = 0 \<and> salida st = [])"
proof (cases "instancia_valida n restricciones")
  case True
  from resolver_enumera [OF assms(1) True] obtain ms where
    r: "resolver_sudoku_killer check restricciones n =
          Some (Inr \<lparr>restr = (base n @ jaulas restricciones) @ map (clausula n) ms,
                     encontradas = length ms, salida = map (cuadricula n) ms\<rparr>)"
    and a: "\<forall>m \<in> set ms. satisface_todas m (base n @ jaulas restricciones)"
    by blast
  have "ms = []"
  proof (rule ccontr)
    assume "ms \<noteq> []"
    then obtain m where "m \<in> set ms" by (cases ms) auto
    with a have m: "satisface_todas m (base n @ jaulas restricciones)" by blast
    from satisface_jaula [OF m assms(2)] have z: "sum_list (map m celdas_grupo) = 0" by simp
    from True assms(2) have "en_tablero n (0, celdas_grupo)"
      by (simp add: instancia_valida_def jaulas_validas_def list_all_iff)
    then have "1 \<le> m fc" if "fc \<in> set celdas_grupo" for fc
      using satisface_base(1) [OF m, of "(fst fc - 1, snd fc - 1)"] that
      by (auto simp: en_tablero_def list_all_iff celdas_iff nombre_def)
    then have "\<forall>x \<in> set (map m celdas_grupo). 1 \<le> x" by auto
    then have "int (length (map m celdas_grupo)) \<le> sum_list (map m celdas_grupo)"
      by (induction "map m celdas_grupo" arbitrary: celdas_grupo) (auto, fastforce)
    with z assms(3) show False by simp
  qed
  with r show ?thesis by simp
next
  case False
  from resolver_error [OF False, of check] show ?thesis by auto
qed

section \<open>The claims\<close>

lemma jaulas_quitar: "set (jaulas (quitar i xs)) \<subseteq> set (jaulas xs)"
proof -
  have "set (quitar i xs) \<subseteq> set xs"
    unfolding quitar_def using set_take_subset [of i xs] set_drop_subset [of "Suc i" xs] by auto
  then show ?thesis by (auto simp: jaulas_def)
qed

lemma instancia_valida_quitar:
  "instancia_valida n xs \<Longrightarrow> instancia_valida n (quitar i xs)"
proof -
  assume v: "instancia_valida n xs"
  have "set (quitar i xs) \<subseteq> set xs"
    unfolding quitar_def using set_take_subset [of i xs] set_drop_subset [of "Suc i" xs] by auto
  with v show ?thesis
    by (auto simp: instancia_valida_def jaulas_validas_def list_all_iff)
qed

lemma soluciones_mono:
  assumes "set ds' \<subseteq> set ds"
  shows "soluciones n (cs @ ds) \<subseteq> soluciones n (cs @ ds')"
  using assms by (auto simp: soluciones_def satisface_todas_def list_all_iff)

text \<open>
  Claim C7: removing one cage from the input never decreases the number of solutions
  enumerated. Both runs return; if the run on the full list ends with a count, the run
  without the cage ends with a count that is at least as large.
\<close>

theorem C7_quitar_una_jaula:
  assumes "solucionador_z3 check" "i < length restricciones"
  shows "\<exists>r r'. resolver_sudoku_killer check restricciones n = Some r
           \<and> resolver_sudoku_killer check (quitar i restricciones) n = Some r'
           \<and> (\<forall>st. r = Inr st \<longrightarrow> (\<exists>st'. r' = Inr st' \<and> encontradas st \<le> encontradas st'))"
proof (cases "instancia_valida n restricciones")
  case True
  then have v': "instancia_valida n (quitar i restricciones)" by (rule instancia_valida_quitar)
  let ?cs = "base n @ jaulas restricciones"
  let ?cs' = "base n @ jaulas (quitar i restricciones)"
  from resolver_enumera [OF assms(1) True] obtain ms where
    r: "resolver_sudoku_killer check restricciones n =
          Some (Inr \<lparr>restr = ?cs @ map (clausula n) ms,
                     encontradas = length ms, salida = map (cuadricula n) ms\<rparr>)"
    and d: "distinct (map (cuadricula n) ms)" and s: "cuadricula n ` set ms = soluciones n ?cs"
    by blast
  from resolver_enumera [OF assms(1) v'] obtain ms' where
    r': "resolver_sudoku_killer check (quitar i restricciones) n =
          Some (Inr \<lparr>restr = ?cs' @ map (clausula n) ms',
                     encontradas = length ms', salida = map (cuadricula n) ms'\<rparr>)"
    and d': "distinct (map (cuadricula n) ms')" and s': "cuadricula n ` set ms' = soluciones n ?cs'"
    by blast
  have "soluciones n ?cs \<subseteq> soluciones n ?cs'"
    using jaulas_quitar by (rule soluciones_mono)
  moreover have "finite (soluciones n ?cs')"
    using sobre_tablero_instancia [OF v'] by (rule soluciones_finitas)
  ultimately have "card (soluciones n ?cs) \<le> card (soluciones n ?cs')" by (simp add: card_mono)
  then have "length ms \<le> length ms'"
    using cuenta_soluciones [OF d s] cuenta_soluciones [OF d' s'] by simp
  with r r' show ?thesis by simp
next
  case False
  from resolver_error [OF False, of check]
    resolver_termina [OF assms(1), of "quitar i restricciones" n]
  show ?thesis by auto
qed

text \<open>
  Claim C9 says that a cage with a cell outside the board makes the program fail with
  an unknown-variable error before any search. The failure before the search always
  holds: the result is the error of the construction, whatever the solver would answer.
  The error is the missing key of the dictionary when the board has a side of at least
  one and no cage is empty. For a side of 0 the program stops earlier, at the
  \<open>range\<close> with step 0 of line 86 (ValueError), and for a negative side at line 85
  (TypeError).
\<close>

theorem C9_celda_fuera_del_tablero:
  assumes "\<not> list_all (en_tablero n) restricciones"
  shows "\<exists>e. construir restricciones n = Inl e
           \<and> resolver_sudoku_killer check restricciones n = Some (Inl e)
           \<and> (1 \<le> n \<and> list_all (\<lambda>j. snd j \<noteq> []) restricciones \<longrightarrow> e = KeyError)
           \<and> (n = 0 \<longrightarrow> e = ValueError)
           \<and> (n < 0 \<longrightarrow> e = TypeError)"
proof -
  from assms have nv: "\<not> instancia_valida n restricciones"
    by (auto simp: instancia_valida_def jaulas_validas_def list_all_iff)
  from resolver_error [OF nv, of check] obtain e where
    e: "construir restricciones n = Inl e"
       "resolver_sudoku_killer check restricciones n = Some (Inl e)" by blast
  have "e = KeyError" if "1 \<le> n" "list_all (\<lambda>j. snd j \<noteq> []) restricciones"
    using e(1) that por_cada_jaulas_KeyError [OF assms that(2), of "base n"]
    by (auto simp: construir_eq ligar_def split: if_splits)
  moreover have "e = ValueError" if "n = 0"
    using e(1) that by (simp add: construir_eq)
  moreover have "e = TypeError" if "n < 0"
    using e(1) that by (simp add: construir_eq)
  ultimately show ?thesis using e by blast
qed

text \<open>
  Claim C9 as stated fails for a board of side 0: the cage names a cell that does not
  exist, and the program fails with ValueError, not with a missing key.
\<close>

theorem C9_contraejemplo:
  "\<not> list_all (en_tablero 0) [(5, [(1, 1)])]
   \<and> resolver_sudoku_killer (\<lambda>s. None) [(5, [(1, 1)])] 0 = Some (Inl ValueError)"
  by code_simp

text \<open>
  Claim C10: for a side \<open>n \<ge> 1\<close> that \<open>int(n ** 0.5)\<close> divides and cages with all their
  coordinates in \<open>[1, n] x [1, n]\<close>, no lookup of the construction misses: the
  construction does not fail with KeyError, and it succeeds when no cage is empty.
\<close>

theorem C10_sin_KeyError:
  assumes "1 \<le> n" "raiz_entera n = Inr sub" "sub dvd n"
    "list_all (en_tablero n) restricciones"
  shows "construir restricciones n \<noteq> Inl KeyError
       \<and> (list_all (\<lambda>j. snd j \<noteq> []) restricciones \<longrightarrow>
            (\<exists>vt s. construir restricciones n = Inr (vt, s)))"
proof -
  from assms(1,2) have sub: "sub = raiz n" by (simp add: raiz_entera_eq)
  have c: "construir restricciones n =
           ligar (por_cada (agregar_jaula (dicc_tablero n)) restricciones (base n))
             (\<lambda>s. Inr (dicc_tablero n, s))"
    using assms(1,3) by (simp add: construir_eq sub)
  have "construir restricciones n \<noteq> Inl KeyError"
  proof
    assume "construir restricciones n = Inl KeyError"
    with c have "por_cada (agregar_jaula (dicc_tablero n)) restricciones (base n) = Inl KeyError"
      by (cases "por_cada (agregar_jaula (dicc_tablero n)) restricciones (base n)")
         (simp_all add: ligar_def)
    from por_cada_Inl [OF this] obtain j s1 where
      "j \<in> set restricciones" "agregar_jaula (dicc_tablero n) j s1 = Inl KeyError" by blast
    with assms(4) show False by (auto simp: agregar_jaula_eq list_all_iff split: if_splits)
  qed
  moreover have "\<exists>vt s. construir restricciones n = Inr (vt, s)"
    if "list_all (\<lambda>j. snd j \<noteq> []) restricciones"
  proof -
    from that assms(4) have "jaulas_validas n restricciones"
      by (auto simp: jaulas_validas_def list_all_iff)
    with assms(1,3) have "instancia_valida n restricciones"
      by (simp add: instancia_valida_def sub)
    from construir_ok [OF this] show ?thesis by blast
  qed
  ultimately show ?thesis by blast
qed

lemma resultado_de:
  "map_option (map_sum id f) x = Some (Inr y) \<Longrightarrow> \<exists>st. x = Some (Inr st) \<and> f st = y"
  by (cases x; cases "the x") auto

text \<open>
  The statement for C3 on the 2 x 2 board (rows and columns) and on the 1 x 1 board
  (a perfect square, with its sub-block).
\<close>

theorem C3_testigo:
  "solucionador_z3 fuerza_bruta
   \<and> (\<exists>st. resolver_sudoku_killer fuerza_bruta [] 2 = Some (Inr st)
          \<and> [[1, 2], [2, 1]] \<in> set (salida st))
   \<and> completa 2 (fila_de [[1, 2], [2, 1]] 0) \<and> completa 2 (fila_de [[1, 2], [2, 1]] 1)
   \<and> completa 2 (columna_de [[1, 2], [2, 1]] 0) \<and> completa 2 (columna_de [[1, 2], [2, 1]] 1)
   \<and> (\<exists>st. resolver_sudoku_killer fuerza_bruta [] 1 = Some (Inr st) \<and> [[1]] \<in> set (salida st))
   \<and> raiz 1 * raiz 1 = 1
   \<and> completa 1 (bloque_de [[1]] (raiz 1) 0 0)"
proof -
  have a: "solucionador_z3 fuerza_bruta" by (rule fuerza_bruta_z3)
  have "map_option (map_sum id salida) (resolver_sudoku_killer fuerza_bruta [] 2) =
          Some (Inr [[[1, 2], [2, 1]], [[2, 1], [1, 2]]])" by code_simp
  from resultado_de [OF this] obtain st2 where
    b2: "resolver_sudoku_killer fuerza_bruta [] 2 = Some (Inr st2)"
    and c2: "[[1, 2], [2, 1]] \<in> set (salida st2)" by auto
  have "map_option (map_sum id salida) (resolver_sudoku_killer fuerza_bruta [] 1) =
          Some (Inr [[[1]]])" by code_simp
  from resultado_de [OF this] obtain st1 where
    b1: "resolver_sudoku_killer fuerza_bruta [] 1 = Some (Inr st1)"
    and c1: "[[1]] \<in> set (salida st1)" by auto
  have r1: "raiz 1 = 1" by (simp add: raiz_def)
  have i1: "inicios 1 1 = [0]" by (simp add: inicios_def)
  have g2: "rango 2 = [0, 1]" by (simp add: rango_def upto.simps)
  from C3_filas_columnas_bloques [OF a b2 c2] C3_filas_columnas_bloques [OF a b1 c1]
  show ?thesis using a b1 c1 b2 c2 by (auto simp: r1 i1 g2)
qed

text \<open>The statement for C4 on a 2 x 2 board with two cages.\<close>

theorem C4_testigo:
  "solucionador_z3 fuerza_bruta
   \<and> (\<exists>st. resolver_sudoku_killer fuerza_bruta [(3, [(1, 1), (1, 2)]), (2, [(2, 1)])] 2 =
             Some (Inr st)
          \<and> [[1, 2], [2, 1]] \<in> set (salida st))
   \<and> (3, [(1, 1), (1, 2)]) \<in> set [(3, [(1, 1), (1, 2)]), (2, [(2, 1)])]
   \<and> distinct (map (valor [[1, 2], [2, 1]]) [(1, 1), (1, 2)])
   \<and> sum_list (map (valor [[1, 2], [2, 1]]) [(1, 1), (1, 2)]) = 3"
proof -
  have a: "solucionador_z3 fuerza_bruta" by (rule fuerza_bruta_z3)
  have "map_option (map_sum id salida)
          (resolver_sudoku_killer fuerza_bruta [(3, [(1, 1), (1, 2)]), (2, [(2, 1)])] 2) =
          Some (Inr [[[1, 2], [2, 1]]])" by code_simp
  from resultado_de [OF this] obtain st where
    b: "resolver_sudoku_killer fuerza_bruta [(3, [(1, 1), (1, 2)]), (2, [(2, 1)])] 2 =
          Some (Inr st)"
    and c: "[[1, 2], [2, 1]] \<in> set (salida st)" by auto
  have d: "(3, [(1, 1), (1, 2)]) \<in> set [(3 :: int, [(1 :: int, 1 :: int), (1, 2)]), (2, [(2, 1)])]"
    by simp
  from C4_jaulas [OF a b c d] a b c d show ?thesis by auto
qed

text \<open>The statement for C5 on the 2 x 2 board without cages.\<close>

theorem C5_testigo:
  "solucionador_z3 fuerza_bruta
   \<and> (\<exists>r. resolver_sudoku_killer fuerza_bruta [] 2 = Some r
          \<and> (case construir [] 2 of
                Inl e \<Rightarrow> r = Inl e
              | Inr (vt, s) \<Rightarrow>
                  (\<exists>st. r = Inr st
                     \<and> (\<forall>m. satisface_todas m s \<longrightarrow>
                           (\<exists>t. evaluar_tablero vt 2 m = Inr t \<and> t \<in> set (salida st))))))
   \<and> map_option (map_sum id salida) (resolver_sudoku_killer fuerza_bruta [] 2) =
       Some (Inr [[[1, 2], [2, 1]], [[2, 1], [1, 2]]])"
proof -
  have a: "solucionador_z3 fuerza_bruta" by (rule fuerza_bruta_z3)
  have b: "map_option (map_sum id salida) (resolver_sudoku_killer fuerza_bruta [] 2) =
          Some (Inr [[[1, 2], [2, 1]], [[2, 1], [1, 2]]])" by code_simp
  from C5_termina_y_enumera_todo [OF a, of "[]" 2] a b show ?thesis by blast
qed

text \<open>The statement for C6 on the 1 x 1 board with the cage of target 0 on its cell.\<close>

theorem C6_testigo:
  "solucionador_z3 fuerza_bruta
   \<and> (0, [(1, 1)]) \<in> set [(0, [(1, 1)])]
   \<and> [(1 :: int, 1 :: int)] \<noteq> []
   \<and> (\<exists>st. resolver_sudoku_killer fuerza_bruta [(0, [(1, 1)])] 1 = Some (Inr st)
          \<and> encontradas st = 0 \<and> salida st = [])"
proof -
  have a: "solucionador_z3 fuerza_bruta" by (rule fuerza_bruta_z3)
  have b: "(0, [(1, 1)]) \<in> set [(0 :: int, [(1 :: int, 1 :: int)])]" by simp
  have c: "[(1 :: int, 1 :: int)] \<noteq> []" by simp
  have "map_option (map_sum id encontradas)
          (resolver_sudoku_killer fuerza_bruta [(0, [(1, 1)])] 1) = Some (Inr 0)" by code_simp
  from resultado_de [OF this] obtain st where
    d: "resolver_sudoku_killer fuerza_bruta [(0, [(1, 1)])] 1 = Some (Inr st)" by auto
  from C6_jaula_de_suma_cero [OF a b c, of 1] a b c d show ?thesis by auto
qed

text \<open>
  The statement for C7 on a 2 x 2 board with two cages: one solution with both, two
  without the second.
\<close>

theorem C7_testigo:
  "solucionador_z3 fuerza_bruta
   \<and> 1 < length [(3, [(1, 1), (1, 2)]), (2 :: int, [(2 :: int, 1 :: int)])]
   \<and> (\<exists>st st'.
         resolver_sudoku_killer fuerza_bruta [(3, [(1, 1), (1, 2)]), (2, [(2, 1)])] 2 =
           Some (Inr st)
       \<and> resolver_sudoku_killer fuerza_bruta
           (quitar 1 [(3, [(1, 1), (1, 2)]), (2, [(2, 1)])]) 2 = Some (Inr st')
       \<and> encontradas st = 1 \<and> encontradas st' = 2 \<and> encontradas st \<le> encontradas st')"
proof -
  have a: "solucionador_z3 fuerza_bruta" by (rule fuerza_bruta_z3)
  have b: "1 < length [(3, [(1, 1), (1, 2)]), (2 :: int, [(2 :: int, 1 :: int)])]" by simp
  have "map_option (map_sum id encontradas)
          (resolver_sudoku_killer fuerza_bruta [(3, [(1, 1), (1, 2)]), (2, [(2, 1)])] 2) =
          Some (Inr 1)" by code_simp
  from resultado_de [OF this] obtain st where
    c: "resolver_sudoku_killer fuerza_bruta [(3, [(1, 1), (1, 2)]), (2, [(2, 1)])] 2 =
          Some (Inr st)" "encontradas st = 1" by auto
  have "map_option (map_sum id encontradas)
          (resolver_sudoku_killer fuerza_bruta
             (quitar 1 [(3, [(1, 1), (1, 2)]), (2, [(2, 1)])]) 2) =
          Some (Inr 2)" by code_simp
  from resultado_de [OF this] obtain st' where
    d: "resolver_sudoku_killer fuerza_bruta
          (quitar 1 [(3, [(1, 1), (1, 2)]), (2, [(2, 1)])]) 2 = Some (Inr st')"
       "encontradas st' = 2" by auto
  from C7_quitar_una_jaula [OF a b, of 2] a b c d show ?thesis by auto
qed

text \<open>The statement for C9 on a 2 x 2 board with a cage that names column 3.\<close>

theorem C9_testigo:
  "\<not> list_all (en_tablero 2) [(3, [(1, 1), (1, 3)])]
   \<and> resolver_sudoku_killer (\<lambda>s. None) [(3, [(1, 1), (1, 3)])] 2 = Some (Inl KeyError)"
proof -
  have a: "\<not> list_all (en_tablero 2) [(3, [(1, 1), (1, 3)])]" by (simp add: en_tablero_def)
  from C9_celda_fuera_del_tablero [OF a, of "\<lambda>s. None"] a show ?thesis by auto
qed

text \<open>The statement for C10 on the instance of main.py.\<close>

theorem C10_testigo:
  "(1 :: int) \<le> dimension
   \<and> raiz_entera dimension = Inr 3
   \<and> (3 :: int) dvd dimension
   \<and> list_all (en_tablero dimension) restricciones_sudoku
   \<and> list_all (\<lambda>j. snd j \<noteq> []) restricciones_sudoku
   \<and> construir restricciones_sudoku dimension \<noteq> Inl KeyError
   \<and> (\<exists>vt s. construir restricciones_sudoku dimension = Inr (vt, s))"
proof -
  have a: "(1 :: int) \<le> dimension" by (simp add: dimension_def)
  have b: "raiz_entera dimension = Inr 3" by code_simp
  have c: "(3 :: int) dvd dimension" by (simp add: dimension_def)
  have d: "list_all (en_tablero dimension) restricciones_sudoku" by code_simp
  have e: "list_all (\<lambda>j. snd j \<noteq> []) restricciones_sudoku" by code_simp
  from C10_sin_KeyError [OF a b c d] a b c d e show ?thesis by blast
qed

section \<open>The checker keeps every model\<close>

lemma busca_set: "busca xs i = Some x \<Longrightarrow> x \<in> set xs"
  by (induction xs i rule: busca.induct) auto

lemma quita_todas_suma:
  fixes f :: "celda \<Rightarrow> int"
  shows "quita_todas xs ys = Some zs \<Longrightarrow>
   sum_list (map f ys) = sum_list (map f xs) + sum_list (map f zs) \<and> set zs \<subseteq> set ys"
proof (induction xs arbitrary: ys)
  case Nil
  then show ?case by simp
next
  case (Cons x xs)
  from Cons.prems have x: "x \<in> set ys" and r: "quita_todas xs (remove1 x ys) = Some zs"
    by (auto split: if_splits)
  from Cons.IH [OF r] have
    "sum_list (map f (remove1 x ys)) = sum_list (map f xs) + sum_list (map f zs)"
    "set zs \<subseteq> set (remove1 x ys)" by simp_all
  moreover have "sum_list (map f ys) = f x + sum_list (map f (remove1 x ys))"
    using x by (rule sum_list_map_remove1)
  moreover have "set (remove1 x ys) \<subseteq> set ys" by (rule set_remove1_subset)
  ultimately show ?case by auto
qed

lemma suma_completa:
  assumes "completa (int n) xs"
  shows "sum_list xs = suma_unidad n"
proof -
  from assms have d: "distinct xs" and s: "set xs = {1..int n}" by (simp_all add: completa_def)
  have "sum_list xs = (\<Sum>x \<in> set xs. x)"
    using d sum_list_distinct_conv_sum_set [of xs "\<lambda>x. x"] by simp
  also have "\<dots> = (\<Sum>x \<in> {1..int n}. x)" by (simp add: s)
  also have "\<dots> = suma_unidad n"
  proof (induction n)
    case 0
    show ?case by (simp add: suma_unidad_def)
  next
    case (Suc n)
    have "{1..int (Suc n)} = insert (int n + 1) {1..int n}" by auto
    then have "(\<Sum>x \<in> {1..int (Suc n)}. x) = int n + 1 + (\<Sum>x \<in> {1..int n}. x)" by simp
    also have "\<dots> = int n + 1 + suma_unidad n" by (simp add: Suc.IH)
    also have "\<dots> = suma_unidad (Suc n)"
    proof -
      have "even (int n * (int n + 1))" by simp
      then obtain q where q: "int n * (int n + 1) = 2 * q" by (rule evenE)
      have "int (Suc n) * (int (Suc n) + 1) = 2 * q + 2 * (int n + 1)"
        using q by (simp add: algebra_simps)
      then show ?thesis by (simp add: suma_unidad_def q)
    qed
    finally show ?case .
  qed
  finally show ?thesis .
qed

lemma unidad_completa:
  assumes ok: "modelo_ok n ics m" and c: "Dist ps \<in> set ics" and l: "length ps = n"
  shows "completa (int n) (map (\<lambda>p. m (var p)) ps)"
proof (rule completa_intro)
  from ok c have "satisface m (traduce (Dist ps))" by (auto simp: modelo_ok_def)
  then show "distinct (map (\<lambda>p. m (var p)) ps)" by (simp add: o_def)
  from ok c have r: "\<forall>p \<in> set ps. en_rango n p"
    by (auto simp: modelo_ok_def validas_def list_all_iff)
  show "1 \<le> x \<and> x \<le> int n" if "x \<in> set (map (\<lambda>p. m (var p)) ps)" for x
    using that r ok by (auto simp: modelo_ok_def)
  show "length (map (\<lambda>p. m (var p)) ps) = nat (int n)" by (simp add: l)
qed

lemma unidades_suma:
  assumes ok: "modelo_ok n ics m"
  shows "unidades n ics us = Some U \<Longrightarrow>
     sum_list (map (\<lambda>p. m (var p)) U) = int (length us) * suma_unidad n
     \<and> (\<forall>p \<in> set U. en_rango n p)"
proof (induction us arbitrary: U)
  case Nil
  then show ?case by simp
next
  case (Cons i us)
  from Cons.prems obtain ps r where b: "busca ics i = Some (Dist ps)" and l: "length ps = n"
    and r: "unidades n ics us = Some r" and U: "U = ps @ r"
    by (auto split: option.splits ic.splits if_splits)
  from b have c: "Dist ps \<in> set ics" by (rule busca_set)
  from suma_completa [OF unidad_completa [OF ok c l]]
  have s: "sum_list (map (\<lambda>p. m (var p)) ps) = suma_unidad n" .
  from ok c have "\<forall>p \<in> set ps. en_rango n p"
    by (auto simp: modelo_ok_def validas_def list_all_iff)
  with Cons.IH [OF r] s show ?case by (auto simp: U algebra_simps)
qed

lemma sumas_suma:
  assumes ok: "modelo_ok n ics m"
  shows "sumas ics cs = Some C \<Longrightarrow>
     sum_list (map (\<lambda>p. m (var p)) (fst C)) = snd C \<and> (\<forall>p \<in> set (fst C). en_rango n p)"
proof (induction cs arbitrary: C)
  case Nil
  then show ?case by auto
next
  case (Cons i cs)
  from Cons.prems obtain ps t r where b: "busca ics i = Some (Suma ps t)"
    and r: "sumas ics cs = Some r" and C: "C = (ps @ fst r, t + snd r)"
    by (auto split: option.splits ic.splits)
  from b have c: "Suma ps t \<in> set ics" by (rule busca_set)
  with ok have "satisface m (traduce (Suma ps t))" by (auto simp: modelo_ok_def)
  then have s: "sum_list (map (\<lambda>p. m (var p)) ps) = t" by (simp add: o_def)
  from ok c have "\<forall>p \<in> set ps. en_rango n p"
    by (auto simp: modelo_ok_def validas_def list_all_iff)
  with Cons.IH [OF r] s show ?case by (auto simp: C)
qed

lemma deriva_ok:
  assumes ok: "modelo_ok n ics m" and d: "deriva n ics d = Some c"
  shows "satisface m (traduce c) \<and> list_all (en_rango n) (celdas_ic c)"
proof (cases d)
  case (Copia i)
  with d have "c \<in> set ics" by (simp add: busca_set)
  with ok show ?thesis by (auto simp: modelo_ok_def validas_def list_all_iff)
next
  case (Dentro us cs)
  with d obtain U C r where u: "unidades n ics us = Some U" and s: "sumas ics cs = Some C"
    and q: "quita_todas (fst C) U = Some r"
    and c: "c = Suma r (int (length us) * suma_unidad n - snd C)"
    by (auto split: option.splits)
  from quita_todas_suma [OF q, of "\<lambda>p. m (var p)"] unidades_suma [OF ok u] sumas_suma [OF ok s]
  show ?thesis by (auto simp: c o_def list_all_iff)
next
  case (Fuera us cs)
  with d obtain U C r where u: "unidades n ics us = Some U" and s: "sumas ics cs = Some C"
    and q: "quita_todas U (fst C) = Some r"
    and c: "c = Suma r (snd C - int (length us) * suma_unidad n)"
    by (auto split: option.splits)
  from quita_todas_suma [OF q, of "\<lambda>p. m (var p)"] unidades_suma [OF ok u] sumas_suma [OF ok s]
  show ?thesis by (auto simp: c o_def list_all_iff)
qed

lemma derivadas_ok:
  assumes ok: "modelo_ok n ics m"
  shows "derivadas n ics ds = Some cs \<Longrightarrow> modelo_ok n cs m"
proof (induction ds arbitrary: cs)
  case Nil
  with ok show ?case by (simp add: modelo_ok_def validas_def)
next
  case (Cons d ds)
  from Cons.prems obtain c r where d: "deriva n ics d = Some c"
    and r: "derivadas n ics ds = Some r" and cs: "cs = c # r"
    by (auto split: option.splits)
  from deriva_ok [OF ok d] Cons.IH [OF r] show ?case
    by (simp add: cs modelo_ok_def validas_def)
qed

lemma bien_formado_pon:
  assumes "bien_formado n D"
  shows "bien_formado n (pon p d D)"
proof (cases "fst p < length D")
  case True
  with assms have "length ((D ! fst p)[snd p := d]) = n"
    by (simp add: bien_formado_def list_all_iff)
  moreover have "set (D[fst p := (D ! fst p)[snd p := d]])
                 \<subseteq> insert ((D ! fst p)[snd p := d]) (set D)"
    by (rule set_update_subset_insert)
  ultimately have "\<forall>fila \<in> set (D[fst p := (D ! fst p)[snd p := d]]). length fila = n"
    using assms by (auto simp: bien_formado_def list_all_iff)
  with assms show ?thesis by (simp add: bien_formado_def pon_def list_all_iff)
next
  case False
  then have "pon p d D = D" by (simp add: pon_def list_update_beyond)
  with assms show ?thesis by simp
qed

lemma dom_celda_pon:
  assumes "bien_formado n D" "en_rango n p"
  shows "dom_celda (pon p d D) q = (if q = p then d else dom_celda D q)"
proof -
  from assms have a: "fst p < length D" and b: "snd p < length (D ! fst p)"
    by (auto simp: bien_formado_def en_rango_def list_all_iff)
  show ?thesis
  proof (cases "fst q = fst p")
    case True
    with a b show ?thesis
      by (cases p; cases q) (auto simp: dom_celda_def pon_def nth_list_update)
  next
    case False
    then show ?thesis
      by (cases p; cases q) (auto simp: dom_celda_def pon_def nth_list_update)
  qed
qed

lemma compatibleD: "compatible n m D \<Longrightarrow> en_rango n p \<Longrightarrow> m (var p) \<in> set (dom_celda D p)"
  unfolding compatible_def by blast

lemma compatibleI: "(\<And>p. en_rango n p \<Longrightarrow> m (var p) \<in> set (dom_celda D p)) \<Longrightarrow> compatible n m D"
  unfolding compatible_def by blast

lemma compatible_pon:
  assumes "bien_formado n D" "compatible n m D" "en_rango n p \<Longrightarrow> m (var p) \<in> set d"
  shows "compatible n m (pon p d D)"
proof (cases "en_rango n p")
  case True
  with assms show ?thesis by (auto simp: compatible_def dom_celda_pon)
next
  case False
  have "pon p d D = D"
  proof (cases "fst p < n")
    case True
    with False have "\<not> snd p < n" by (simp add: en_rango_def)
    moreover from True assms(1) have "length (D ! fst p) = n"
      by (simp add: bien_formado_def list_all_iff)
    ultimately have "(D ! fst p)[snd p := d] = D ! fst p" by (simp add: list_update_beyond)
    then show ?thesis by (simp add: pon_def)
  next
    case False
    with assms(1) show ?thesis by (simp add: pon_def bien_formado_def list_update_beyond)
  qed
  with assms(2) show ?thesis by simp
qed

lemma elimina_ok:
  assumes "bien_formado n D" "compatible n m D"
    "\<forall>v \<in> set vs. v \<noteq> u \<longrightarrow> m (var v) \<noteq> k"
  shows "bien_formado n (elimina k u vs D) \<and> compatible n m (elimina k u vs D)"
  using assms
proof (induction vs arbitrary: D)
  case Nil
  then show ?case by simp
next
  case (Cons v vs)
  show ?case
  proof (cases "v = u")
    case True
    with Cons show ?thesis by simp
  next
    case False
    let ?D = "pon v (removeAll k (dom_celda D v)) D"
    have "m (var v) \<in> set (removeAll k (dom_celda D v))" if "en_rango n v"
      using that Cons.prems False compatibleD [of n m D v] by simp
    with Cons.prems have "bien_formado n ?D" "compatible n m ?D"
      by (auto intro: bien_formado_pon compatible_pon)
    with Cons.IH [of ?D] Cons.prems(3) False show ?thesis by simp
  qed
qed

lemma fold_min_le: "fold min xs (a :: int) \<le> a \<and> (\<forall>x \<in> set xs. fold min xs a \<le> x)"
proof (induction xs arbitrary: a)
  case Nil
  show ?case by simp
next
  case (Cons y ys)
  from Cons [of "min y a"] show ?case by (auto simp: min_le_iff_disj)
qed

lemma fold_max_ge: "a \<le> fold max xs (a :: int) \<and> (\<forall>x \<in> set xs. x \<le> fold max xs a)"
proof (induction xs arbitrary: a)
  case Nil
  show ?case by simp
next
  case (Cons y ys)
  from Cons [of "max y a"] show ?case by (auto simp: le_max_iff_disj)
qed

lemma minimo_le: "x \<in> set d \<Longrightarrow> minimo d \<le> x"
  using fold_min_le [where xs = d and a = "hd d"] by (simp add: minimo_def)

lemma maximo_ge: "x \<in> set d \<Longrightarrow> x \<le> maximo d"
  using fold_max_ge [where xs = d and a = "hd d"] by (simp add: maximo_def)

lemma cotas_suma:
  assumes "compatible n m D" "\<forall>u \<in> set us. en_rango n u"
  shows "sum_list (map (\<lambda>u. minimo (dom_celda D u)) us) \<le> sum_list (map (\<lambda>u. m (var u)) us)"
    and "sum_list (map (\<lambda>u. m (var u)) us) \<le> sum_list (map (\<lambda>u. maximo (dom_celda D u)) us)"
proof -
  have "minimo (dom_celda D u) \<le> m (var u)" "m (var u) \<le> maximo (dom_celda D u)" if "u \<in> set us" for u
    using that assms compatibleD [of n m D u] by (auto intro: minimo_le maximo_ge)
  then show "sum_list (map (\<lambda>u. minimo (dom_celda D u)) us) \<le> sum_list (map (\<lambda>u. m (var u)) us)"
    and "sum_list (map (\<lambda>u. m (var u)) us) \<le> sum_list (map (\<lambda>u. maximo (dom_celda D u)) us)"
    by (auto intro: sum_list_mono)
qed

lemma aplica_ok:
  assumes ok: "modelo_ok n ics m" and bf: "bien_formado n D" and co: "compatible n m D"
    and ap: "aplica n ics st D = Some D'"
  shows "bien_formado n D' \<and> compatible n m D'"
proof (cases st)
  case (ElimD c u)
  with ap obtain ps k where b: "busca ics c = Some (Dist ps)" and u: "u \<in> set ps"
    and d: "dom_celda D u = [k]" and D': "D' = elimina k u ps D"
    by (auto split: option.splits ic.splits if_splits list.splits)
  from b have c: "Dist ps \<in> set ics" by (rule busca_set)
  with ok have dist: "distinct (map (\<lambda>p. m (var p)) ps)" and r: "\<forall>p \<in> set ps. en_rango n p"
    by (auto simp: modelo_ok_def validas_def list_all_iff o_def)
  from r u d compatibleD [OF co, of u] have mu: "m (var u) = k" by simp
  have "m (var v) \<noteq> k" if "v \<in> set ps" "v \<noteq> u" for v
  proof
    assume "m (var v) = k"
    with mu have "m (var v) = m (var u)" by simp
    with dist that(1) u have "v = u" by (auto simp: distinct_map dest: inj_onD)
    with that(2) show False by simp
  qed
  with elimina_ok [OF bf co, of ps u k] show ?thesis by (simp add: D')
next
  case (AcotaS c v)
  with ap obtain ps t where b: "busca ics c = Some (Suma ps t)" and v: "v \<in> set ps"
    and D': "D' = pon v (filter (\<lambda>k.
         t - sum_list (map (\<lambda>u. maximo (dom_celda D u)) (remove1 v ps)) \<le> k
         \<and> k \<le> t - sum_list (map (\<lambda>u. minimo (dom_celda D u)) (remove1 v ps))) (dom_celda D v)) D"
    by (auto split: option.splits ic.splits if_splits simp: Let_def)
  from b have c: "Suma ps t \<in> set ics" by (rule busca_set)
  with ok have s: "sum_list (map (\<lambda>p. m (var p)) ps) = t" and r: "\<forall>p \<in> set ps. en_rango n p"
    by (auto simp: modelo_ok_def validas_def list_all_iff o_def)
  have "sum_list (map (\<lambda>p. m (var p)) ps)
        = m (var v) + sum_list (map (\<lambda>p. m (var p)) (remove1 v ps))"
    using v by (rule sum_list_map_remove1)
  with s have e: "m (var v) = t - sum_list (map (\<lambda>p. m (var p)) (remove1 v ps))" by simp
  have "\<forall>u \<in> set (remove1 v ps). en_rango n u"
    using r set_remove1_subset [of v ps] by blast
  from cotas_suma [OF co this] e have
    "t - sum_list (map (\<lambda>u. maximo (dom_celda D u)) (remove1 v ps)) \<le> m (var v)"
    "m (var v) \<le> t - sum_list (map (\<lambda>u. minimo (dom_celda D u)) (remove1 v ps))"
    by simp_all
  moreover have "m (var v) \<in> set (dom_celda D v)" using r v compatibleD [OF co, of v] by simp
  ultimately show ?thesis
    unfolding D' using bf co by (auto intro!: bien_formado_pon compatible_pon)
next
  case (Oculto c k v)
  with ap obtain ps where b: "busca ics c = Some (Dist ps)" and l: "length ps = n"
    and k: "1 \<le> k" "k \<le> int n" and v: "v \<in> set ps"
    and o: "\<forall>u \<in> set ps. u = v \<or> k \<notin> set (dom_celda D u)"
    and D': "D' = pon v (filter (\<lambda>x. x = k) (dom_celda D v)) D"
    by (auto split: option.splits ic.splits if_splits simp: list_all_iff)
  from b have c: "Dist ps \<in> set ics" by (rule busca_set)
  from unidad_completa [OF ok c l] k have "k \<in> set (map (\<lambda>p. m (var p)) ps)"
    by (simp add: completa_def)
  then obtain u where u: "u \<in> set ps" "m (var u) = k" by auto
  from ok c have r: "\<forall>p \<in> set ps. en_rango n p"
    by (auto simp: modelo_ok_def validas_def list_all_iff)
  with u compatibleD [OF co, of u] have "k \<in> set (dom_celda D u)" by auto
  with o u have "u = v" by blast
  with u have "m (var v) = k" by simp
  moreover have "m (var v) \<in> set (dom_celda D v)" using r v compatibleD [OF co, of v] by simp
  ultimately show ?thesis
    unfolding D' using bf co by (auto intro!: bien_formado_pon compatible_pon)
qed

lemma aplica_todos_ok:
  assumes ok: "modelo_ok n ics m"
  shows "aplica_todos n ics sts D = Some D' \<Longrightarrow> bien_formado n D \<Longrightarrow> compatible n m D \<Longrightarrow>
           bien_formado n D' \<and> compatible n m D'"
proof (induction sts arbitrary: D)
  case Nil
  then show ?case by simp
next
  case (Cons st sts)
  from Cons.prems(1) obtain D1 where a: "aplica n ics st D = Some D1"
    and r: "aplica_todos n ics sts D1 = Some D'" by (auto split: option.splits)
  from aplica_ok [OF ok Cons.prems(2,3) a] Cons.IH [OF r] show ?case by blast
qed

lemma verifica_ok:
  "modelo_ok n ics m \<Longrightarrow> verifica n ics c D = Some Ds \<Longrightarrow> bien_formado n D \<Longrightarrow>
     compatible n m D \<Longrightarrow> \<exists>D' \<in> set Ds. compatible n m D'"
  "modelo_ok n ics m \<Longrightarrow> verifica_ramas n ics v ks cs D = Some Ds \<Longrightarrow> bien_formado n D \<Longrightarrow>
     compatible n m D \<Longrightarrow> en_rango n v \<Longrightarrow> m (var v) \<in> set ks \<Longrightarrow>
     \<exists>D' \<in> set Ds. compatible n m D'"
proof (induction n ics c D and n ics v ks cs D arbitrary: Ds and Ds
    rule: verifica_verifica_ramas.induct)
  case (1 n ics sts c D)
  from "1.prems"(2) obtain D' where a: "aplica_todos n ics sts D = Some D'"
    and r: "verifica n ics c D' = Some Ds" by (auto split: option.splits)
  from aplica_todos_ok [OF "1.prems"(1) a "1.prems"(3,4)] "1.IH" [OF a "1.prems"(1) r]
  show ?case by blast
next
  case (2 n ics v cs D)
  from "2.prems"(2) have e: "en_rango n v"
    and r: "verifica_ramas n ics v (dom_celda D v) cs D = Some Ds"
    by (auto split: if_splits)
  from compatibleD [OF "2.prems"(4) e]
    "2.IH" [OF e "2.prems"(1) r "2.prems"(3,4) e] show ?case by blast
next
  case (3 n ics v D)
  then have "en_rango n v" "dom_celda D v = []" by (auto split: if_splits)
  with compatibleD [OF "3.prems"(4), of v] show ?case by simp
next
  case (4 n ics D)
  then show ?case by auto
next
  case (5 n ics v D)
  then show ?case by simp
next
  case (6 n ics v k ks c cs D)
  from "6.prems"(2) obtain r rs where a: "verifica n ics c (pon v [k] D) = Some r"
    and b: "verifica_ramas n ics v ks cs D = Some rs" and Ds: "Ds = r @ rs"
    by (auto split: option.splits)
  show ?case
  proof (cases "m (var v) = k")
    case True
    have "bien_formado n (pon v [k] D)" using "6.prems"(3) by (rule bien_formado_pon)
    moreover have "compatible n m (pon v [k] D)"
      using "6.prems"(3,4) True by (auto intro: compatible_pon)
    ultimately show ?thesis using "6.IH"(1) [OF "6.prems"(1) a] by (auto simp: Ds)
  next
    case False
    with "6.prems"(6) have "m (var v) \<in> set ks" by simp
    from "6.IH"(2) [OF a "6.prems"(1) b "6.prems"(3,4,5) this] show ?thesis by (auto simp: Ds)
  qed
next
  case (7 n ics v c cs D)
  then show ?case by simp
next
  case (8 n ics v k ks D)
  then show ?case by simp
qed

lemma var_celda_de: "1 \<le> fst v \<Longrightarrow> 1 \<le> snd v \<Longrightarrow> var (celda_de v) = v"
  by (cases v) (simp add: var_def celda_de_def)

lemma traduce_indexa:
  assumes "indexa c = Some i" "\<forall>v \<in> set (variables_de c). 1 \<le> fst v \<and> 1 \<le> snd v"
  shows "traduce i = c"
proof -
  have "map var (map celda_de vs) = vs" if "\<forall>v \<in> set vs. 1 \<le> fst v \<and> 1 \<le> snd v" for vs
    using that by (induction vs) (simp_all add: var_celda_de)
  with assms show ?thesis by (cases c) auto
qed

lemma map_filter_mem: "y \<in> set (List.map_filter f xs) \<Longrightarrow> \<exists>x \<in> set xs. f x = Some y"
  by (induction xs) (auto split: option.splits)

lemma modelo_ok_base:
  assumes v: "instancia_valida n restricciones"
    and s: "satisface_todas m (base n @ jaulas restricciones)"
  shows "modelo_ok (nat n) (indices n restricciones) m"
proof -
  from v have n: "1 \<le> n" by (simp add: instancia_valida_def)
  have cot: "1 \<le> m (var p) \<and> m (var p) \<le> int (nat n)" if "en_rango (nat n) p" for p
  proof -
    from that have "fst p < nat n" "snd p < nat n" by (simp_all add: en_rango_def)
    then have "int (fst p) < n" "int (snd p) < n" by linarith+
    then have "(int (fst p), int (snd p)) \<in> set (celdas n)"
      by (simp add: celdas_iff)
    from satisface_base(1) [OF s this] n show ?thesis by (simp add: nombre_def var_def)
  qed
  have each: "satisface m (traduce i) \<and> list_all (en_rango (nat n)) (celdas_ic i)"
    if "i \<in> set (indices n restricciones)" for i
  proof -
    from that obtain c where c: "c \<in> set (filas n @ bloques n (raiz n) @ jaulas restricciones)"
      and i: "indexa c = Some i"
      unfolding indices_def by (blast dest: map_filter_mem)
    from c have c': "c \<in> set (base n @ jaulas restricciones)" by (auto simp: base_def)
    from sobre_tablero_instancia [OF v] c' have
      vars: "set (variables_de c) \<subseteq> nombre ` set (celdas n)"
      unfolding sobre_tablero_def by blast
    then have pos: "\<forall>v \<in> set (variables_de c). 1 \<le> fst v \<and> 1 \<le> snd v"
      by (auto simp: nombre_def celdas_iff)
    from traduce_indexa [OF i pos] have t: "traduce i = c" .
    from s c' have "satisface m c" by (simp add: satisface_todas_def list_all_iff)
    moreover have "en_rango (nat n) (celda_de u)" if "u \<in> set (variables_de c)" for u
      using that vars by (auto simp: en_rango_def celda_de_def nombre_def celdas_iff)
    then have "list_all (en_rango (nat n)) (celdas_ic i)"
      using i by (cases c) (auto simp: list_all_iff)
    ultimately show ?thesis by (simp add: t)
  qed
  show ?thesis
    unfolding modelo_ok_def validas_def list_all_iff using cot each
    by (auto simp: list_all_iff)
qed

lemma bien_formado_inicial: "bien_formado n (inicial n)"
  by (simp add: bien_formado_def inicial_def list_all_iff)

lemma compatible_inicial:
  assumes "modelo_ok n ics m"
  shows "compatible n m (inicial n)"
proof (rule compatibleI)
  fix p assume p: "en_rango n p"
  then have "dom_celda (inicial n) p = [1..int n]"
    by (simp add: dom_celda_def inicial_def en_rango_def)
  moreover from assms p have "1 \<le> m (var p) \<and> m (var p) \<le> int n"
    unfolding modelo_ok_def by blast
  ultimately show "m (var p) \<in> set (dom_celda (inicial n) p)" by simp
qed

lemma compatible_resuelto:
  assumes c: "compatible n m (resuelto t)"
    and l: "length t = n" "list_all (\<lambda>fila. length fila = n) t"
  shows "cuadricula (int n) m = t"
proof (rule nth_equalityI)
  show len: "length (cuadricula (int n) m) = length t" by (simp add: cuadricula_def rango_length l)
  fix i assume "i < length (cuadricula (int n) m)"
  then have i: "i < n" by (simp add: cuadricula_def rango_length)
  then have ir: "int i \<in> set (rango (int n))" by (simp add: rango_iff)
  from i l have li: "length (t ! i) = n" by (simp add: list_all_iff)
  have "fila_de (cuadricula (int n) m) (int i) = t ! i"
    unfolding cuadricula_fila [OF ir]
  proof (rule nth_equalityI)
    show "length (map (\<lambda>c. m (nombre (int i, c))) (rango (int n))) = length (t ! i)"
      by (simp add: rango_length li)
    fix j assume "j < length (map (\<lambda>c. m (nombre (int i, c))) (rango (int n)))"
    then have j: "j < n" by (simp add: rango_length)
    then have jr: "int j \<in> set (rango (int n))" by (simp add: rango_iff)
    from i j have "en_rango n (i, j)" by (simp add: en_rango_def)
    from compatibleD [OF c this] i j l li have "m (var (i, j)) = t ! i ! j"
      by (simp add: dom_celda_def resuelto_def)
    moreover have "map (\<lambda>c. m (nombre (int i, c))) (rango (int n)) ! j = m (nombre (int i, int j))"
      using j rango_nth [OF jr] by (simp add: rango_length)
    ultimately show "map (\<lambda>c. m (nombre (int i, c))) (rango (int n)) ! j = t ! i ! j"
      by (simp add: nombre_def var_def)
  qed
  then show "cuadricula (int n) m ! i = t ! i" by (simp add: fila_de_def)
qed

lemma certificado_unica:
  assumes v: "instancia_valida n restricciones"
    and s: "satisface_todas m (base n @ jaulas restricciones)"
    and d: "derivadas (nat n) (indices n restricciones) ds = Some ics"
    and c: "verifica (nat n) ics cert (inicial (nat n)) = Some [resuelto t]"
    and l: "length t = nat n" "list_all (\<lambda>fila. length fila = nat n) t"
  shows "cuadricula n m = t"
proof -
  from v have n: "1 \<le> n" by (simp add: instancia_valida_def)
  have ok: "modelo_ok (nat n) ics m"
    using modelo_ok_base [OF v s] d by (rule derivadas_ok)
  from verifica_ok(1) [OF ok c bien_formado_inicial compatible_inicial [OF ok]]
  have "compatible (nat n) m (resuelto t)" by simp
  from compatible_resuelto [OF this l] n show ?thesis by simp
qed

lemma lista_unica:
  assumes "distinct xs" "set xs = {x}"
  shows "xs = [x]"
proof (cases xs)
  case Nil
  with assms show ?thesis by simp
next
  case (Cons y ys)
  with assms have y: "y = x" by auto
  have "ys = []"
  proof (cases ys)
    case Nil
    then show ?thesis .
  next
    case (Cons z zs)
    with assms \<open>xs = y # ys\<close> have "z = x" "z \<noteq> y" by auto
    with y show ?thesis by simp
  qed
  with Cons y show ?thesis by simp
qed

lemma resolver_unica:
  assumes z3: "solucionador_z3 check"
    and v: "instancia_valida n restricciones"
    and u: "\<And>m. satisface_todas m (base n @ jaulas restricciones) \<Longrightarrow> cuadricula n m = t"
    and e: "satisface_todas m0 (base n @ jaulas restricciones)"
  shows "\<exists>st. resolver_sudoku_killer check restricciones n = Some (Inr st)
           \<and> encontradas st = 1 \<and> salida st = [t]"
proof -
  from resolver_enumera [OF z3 v] obtain ms where
    r: "resolver_sudoku_killer check restricciones n =
          Some (Inr \<lparr>restr = (base n @ jaulas restricciones) @ map (clausula n) ms,
                     encontradas = length ms, salida = map (cuadricula n) ms\<rparr>)"
    and d: "distinct (map (cuadricula n) ms)"
    and s: "cuadricula n ` set ms = soluciones n (base n @ jaulas restricciones)"
    by blast
  have "soluciones n (base n @ jaulas restricciones) = {t}"
    using u e by (auto simp: soluciones_def)
  with s have "set (map (cuadricula n) ms) = {t}" by simp
  with d have "map (cuadricula n) ms = [t]" by (rule lista_unica)
  moreover from this have "length ms = 1" by (cases ms) auto
  ultimately show ?thesis using r by simp
qed

section \<open>The instance of main.py has exactly one solution\<close>

lemma sudoku_valida: "instancia_valida 9 restricciones_sudoku"
  by code_simp

lemma sudoku_derivadas:
  "derivadas 9 (indices 9 restricciones_sudoku) derivaciones_sudoku = Some ics_sudoku"
  by code_simp

lemma sudoku_certificado:
  "verifica 9 ics_sudoku certificado_sudoku (inicial 9) = Some [resuelto solucion_sudoku]"
  by code_simp

lemma sudoku_solucion:
  "satisface_todas (valor solucion_sudoku) (base 9 @ jaulas restricciones_sudoku)"
  by code_simp

lemma sudoku_unica:
  assumes "satisface_todas m (base 9 @ jaulas restricciones_sudoku)"
  shows "cuadricula 9 m = solucion_sudoku"
proof -
  have d: "derivadas (nat 9) (indices 9 restricciones_sudoku) derivaciones_sudoku = Some ics_sudoku"
    using sudoku_derivadas by simp
  have c: "verifica (nat 9) ics_sudoku certificado_sudoku (inicial (nat 9)) =
             Some [resuelto solucion_sudoku]"
    using sudoku_certificado by simp
  have l: "length solucion_sudoku = nat 9"
    "list_all (\<lambda>fila. length fila = nat 9) solucion_sudoku"
    by (simp_all add: solucion_sudoku_def)
  from certificado_unica [OF sudoku_valida assms d c l] show ?thesis .
qed

lemma sudoku_resuelve:
  assumes "solucionador_z3 check"
  shows "\<exists>st. resolver_sudoku_killer check restricciones_sudoku dimension = Some (Inr st)
           \<and> encontradas st = 1 \<and> salida st = [solucion_sudoku]"
  unfolding dimension_def
  using assms sudoku_valida sudoku_unica sudoku_solucion by (rule resolver_unica)

text \<open>
  Claim C8 says that the instance of main.py has exactly one solution and that the first
  row of this solution is 4 1 6 8 3 2 5 9 7. The first part holds and the second does
  not: the cage \<open>(8, [(1, 1), (2, 1)])\<close> alone forbids a 4 in the first cell. What
  holds: on the instance of main.py, whose list has 29 cages, the program enumerates
  exactly one solution, the board \<open>solucion_sudoku\<close>, and its first row is
  2 9 8 1 4 3 7 6 5.
\<close>

theorem C8_una_solucion:
  assumes "solucionador_z3 check"
  shows "\<exists>st. resolver_sudoku_killer check restricciones_sudoku dimension = Some (Inr st)
           \<and> encontradas st = 1
           \<and> salida st = [solucion_sudoku]
           \<and> fila_de solucion_sudoku 0 = [2, 9, 8, 1, 4, 3, 7, 6, 5]
           \<and> length restricciones_sudoku = 29"
proof -
  have "fila_de solucion_sudoku 0 = [2, 9, 8, 1, 4, 3, 7, 6, 5]"
    by (simp add: fila_de_def solucion_sudoku_def)
  moreover have "length restricciones_sudoku = 29"
    by (simp add: restricciones_sudoku_def)
  ultimately show ?thesis using sudoku_resuelve [OF assms] by blast
qed

text \<open>The statement for C8 with the reference solver.\<close>

theorem C8_testigo:
  "solucionador_z3 fuerza_bruta
   \<and> (\<exists>st. resolver_sudoku_killer fuerza_bruta restricciones_sudoku dimension = Some (Inr st)
          \<and> encontradas st = 1
          \<and> salida st = [solucion_sudoku]
          \<and> fila_de solucion_sudoku 0 = [2, 9, 8, 1, 4, 3, 7, 6, 5]
          \<and> length restricciones_sudoku = 29)"
  using C8_una_solucion [OF fuerza_bruta_z3] fuerza_bruta_z3 by blast

text \<open>
  Claim C8 as stated fails: with a solver that meets the assumption on Z3, the program
  prints one board on the instance of main.py, and the first row of that board is
  2 9 8 1 4 3 7 6 5, not 4 1 6 8 3 2 5 9 7.
\<close>

theorem C8_contraejemplo:
  "solucionador_z3 fuerza_bruta
   \<and> map_option (map_sum id (\<lambda>st. (encontradas st, fila_de (hd (salida st)) 0)))
       (resolver_sudoku_killer fuerza_bruta restricciones_sudoku dimension) =
     Some (Inr (1, [2, 9, 8, 1, 4, 3, 7, 6, 5]))
   \<and> [2, 9, 8, 1, 4, 3, 7, 6, 5] \<noteq> [4, 1, 6, 8, 3, 2, 5, 9, 7 :: int]"
proof -
  from sudoku_resuelve [OF fuerza_bruta_z3] obtain st where
    "resolver_sudoku_killer fuerza_bruta restricciones_sudoku dimension = Some (Inr st)"
    "encontradas st = 1" "salida st = [solucion_sudoku]" by blast
  moreover have "fila_de solucion_sudoku 0 = [2, 9, 8, 1, 4, 3, 7, 6, 5]"
    by (simp add: fila_de_def solucion_sudoku_def)
  ultimately show ?thesis using fuerza_bruta_z3 by simp
qed

end
